theory Spec2Isabelle
  imports Complex_Main
begin

section \<open>Decimal arithmetic: the part of big.js that sparkswap.js calls\<close>

text \<open>
  \<^verbatim>\<open>src/sparkswap.js\<close> does all its arithmetic through \<^verbatim>\<open>require('big.js')\<close>. The
  file never sets \<^verbatim>\<open>Big.DP\<close> or \<^verbatim>\<open>Big.RM\<close>, so the library runs with its defaults:
  \<^verbatim>\<open>DP = 20\<close> decimal places for \<^verbatim>\<open>div\<close> and rounding mode \<^verbatim>\<open>RM = 1\<close> (round half up:
  to the nearest neighbour, and away from zero when equidistant). \<^verbatim>\<open>times\<close>, \<^verbatim>\<open>minus\<close>
  and \<^verbatim>\<open>gt\<close> are exact; \<^verbatim>\<open>div\<close> rounds the quotient to \<^verbatim>\<open>DP\<close> places;
  \<^verbatim>\<open>toFixed(dp)\<close> rounds to \<^verbatim>\<open>dp\<close> places with \<^verbatim>\<open>RM\<close> and prints exactly \<^verbatim>\<open>dp\<close>
  digits after the point.

  A decimal is a coefficient and a number of decimal places: \<open>Big m s\<close> stands for
  \<open>m / 10 ^ s\<close> (the library keeps sign, digits and exponent; the sign of a zero is the
  one thing lost here, and \<^verbatim>\<open>toFixed\<close> and \<^verbatim>\<open>gt\<close> do not show it).
\<close>

datatype big = Big (coef: int) (scale: nat)

definition Big_val :: "big \<Rightarrow> rat" where
  "Big_val x = of_int (coef x) / 10 ^ scale x"

datatype error =
    InvalidSide string        \<comment> \<open>\<^verbatim>\<open>new Error(`Invalid side: ${side}`)\<close>\<close>
  | OrderFailed string        \<comment> \<open>\<^verbatim>\<open>new Error(`Order ${id} is in a FAILED state.`)\<close>\<close>
  | RpcError string           \<comment> \<open>the \<^verbatim>\<open>err\<close> of a gRPC call\<close>
  | BigInvalidNumber          \<comment> \<open>big.js: the argument is not a decimal literal\<close>
  | BigDivisionByZero         \<comment> \<open>big.js: \<^verbatim>\<open>div\<close> by zero\<close>

definition Big_DP :: nat where
  "Big_DP = 20"

definition is_digit :: "char \<Rightarrow> bool" where
  "is_digit c = (48 \<le> (of_char c :: nat) \<and> (of_char c :: nat) \<le> 57)"

definition digit_val :: "char \<Rightarrow> nat" where
  "digit_val c = of_char c - 48"

definition digit_char :: "nat \<Rightarrow> char" where
  "digit_char d = ''0123456789'' ! d"

definition nat_of_digits :: "string \<Rightarrow> nat" where
  "nat_of_digits ds = foldl (\<lambda>a c. 10 * a + digit_val c) 0 ds"

text \<open>The exponent part of a literal: nothing, or \<^verbatim>\<open>e\<close>, an optional sign and digits.\<close>

definition parse_exponent :: "string \<Rightarrow> int option" where
  "parse_exponent s =
     (case s of
        [] \<Rightarrow> Some 0
      | c # r \<Rightarrow>
          if c = CHR ''e'' \<or> c = CHR ''E'' then
            (let neg = (r \<noteq> [] \<and> hd r = CHR ''-'');
                 ds = (if r \<noteq> [] \<and> (hd r = CHR ''-'' \<or> hd r = CHR ''+'') then tl r else r)
             in if ds \<noteq> [] \<and> list_all is_digit ds
                then Some (if neg then - int (nat_of_digits ds) else int (nat_of_digits ds))
                else None)
          else None)"

text \<open>
  \<^verbatim>\<open>Big(s)\<close> accepts what the library's pattern
  \<^verbatim>\<open>/^-?(\d+(\.\d*)?|\.\d+)(e[+-]?\d+)?$/i\<close> accepts and throws on anything else.
\<close>

definition Big_parse :: "string \<Rightarrow> big option" where
  "Big_parse s =
     (let neg = (s \<noteq> [] \<and> hd s = CHR ''-'');
          s1 = (if neg then tl s else s);
          ip = takeWhile is_digit s1;
          r1 = dropWhile is_digit s1;
          dot = (r1 \<noteq> [] \<and> hd r1 = CHR ''.'');
          fp = (if dot then takeWhile is_digit (tl r1) else []);
          r2 = (if dot then dropWhile is_digit (tl r1) else r1)
      in if ip = [] \<and> fp = [] then None
         else
           (case parse_exponent r2 of
              None \<Rightarrow> None
            | Some ex \<Rightarrow>
                (let m = int (nat_of_digits (ip @ fp));
                     m' = (if neg then - m else m);
                     k = int (length fp) - ex
                 in Some (if 0 \<le> k then Big m' (nat k) else Big (m' * 10 ^ nat (- k)) 0))))"

definition Big_of :: "string \<Rightarrow> error + big" where
  "Big_of s = (case Big_parse s of None \<Rightarrow> Inl BigInvalidNumber | Some b \<Rightarrow> Inr b)"

definition Big_times :: "big \<Rightarrow> big \<Rightarrow> big" where
  "Big_times x y = Big (coef x * coef y) (scale x + scale y)"

definition Big_minus :: "big \<Rightarrow> big \<Rightarrow> big" where
  "Big_minus x y =
     (let s = max (scale x) (scale y)
      in Big (coef x * 10 ^ (s - scale x) - coef y * 10 ^ (s - scale y)) s)"

definition Big_gt :: "big \<Rightarrow> big \<Rightarrow> bool" where
  "Big_gt x y = (coef y * 10 ^ scale x < coef x * 10 ^ scale y)"

text \<open>Rounding to \<open>dp\<close> places, half up on the magnitude (\<^verbatim>\<open>RM = 1\<close>).\<close>

definition Big_round :: "nat \<Rightarrow> big \<Rightarrow> big" where
  "Big_round dp x =
     (if scale x \<le> dp then x
      else
        (let d = 10 ^ (scale x - dp);
             a = \<bar>coef x\<bar>;
             q = a div d
         in Big (sgn (coef x) * (if d \<le> 2 * (a mod d) then q + 1 else q)) dp))"

text \<open>\<^verbatim>\<open>x.div(y)\<close>: throws on a zero divisor, else the quotient rounded to \<^verbatim>\<open>DP\<close> places.\<close>

definition Big_div :: "big \<Rightarrow> big \<Rightarrow> error + big" where
  "Big_div x y =
     (if coef y = 0 then Inl BigDivisionByZero
      else
        (let n = \<bar>coef x\<bar> * 10 ^ (scale y + Big_DP);
             d = \<bar>coef y\<bar> * 10 ^ scale x;
             q = n div d
         in Inr (Big (sgn (coef x) * sgn (coef y) * (if d \<le> 2 * (n mod d) then q + 1 else q))
                   Big_DP)))"

function digits :: "nat \<Rightarrow> string" where
  "digits n = (if n < 10 then [digit_char n] else digits (n div 10) @ [digit_char (n mod 10)])"
  by pat_completeness auto
termination
  by (relation "measure id") auto

declare digits.simps [simp del]

definition pad_zeros :: "nat \<Rightarrow> string \<Rightarrow> string" where
  "pad_zeros w s = replicate (w - length s) (CHR ''0'') @ s"

text \<open>
  \<^verbatim>\<open>x.toFixed(dp)\<close>: the value rounded to \<open>dp\<close> places, printed in normal notation with
  exactly \<open>dp\<close> digits after the point; the sign is printed when \<open>x\<close> itself is negative.
\<close>

definition Big_toFixed :: "nat \<Rightarrow> big \<Rightarrow> string" where
  "Big_toFixed dp x =
     (let r = Big_round dp x;
          m = nat \<bar>coef r\<bar> * 10 ^ (dp - scale r);
          s = digits (m div 10 ^ dp) @
              (if dp = 0 then [] else CHR ''.'' # pad_zeros dp (digits (m mod 10 ^ dp)))
      in if coef x < 0 then CHR ''-'' # s else s)"

section \<open>The broker's remote interface\<close>

text \<open>
  The gRPC services are outside the file. A call is modelled by what the client sends
  (a request added to the list of requests sent so far) and by what the broker answers,
  which is a parameter of the operation: a function of the request or, for an order
  that is polled, the list of the answers to the successive polls. Deadlines and the
  poll interval are times and are left out; only the order of the calls is kept.
\<close>

datatype rpc =
    GetBlockOrders string            \<comment> \<open>\<^verbatim>\<open>orderService.getBlockOrders({ market })\<close>\<close>
  | CancelBlockOrder string          \<comment> \<open>\<^verbatim>\<open>orderService.cancelBlockOrder({ blockOrderId })\<close>\<close>
  | GetBlockOrder string             \<comment> \<open>\<^verbatim>\<open>orderService.getBlockOrder({ blockOrderId })\<close>\<close>
  | GetTradingCapacities string      \<comment> \<open>\<^verbatim>\<open>walletService.getTradingCapacities({ market })\<close>\<close>

record block_order =
  blockOrderId :: string
  status :: string
  fillAmount :: "string option"      \<comment> \<open>\<open>None\<close>: the field is absent\<close>
  limitPrice :: string

record symbol_capacities =
  availableSendCapacity :: string
  availableReceiveCapacity :: string

record trading_capacities =
  baseSymbolCapacities :: symbol_capacities
  counterSymbolCapacities :: symbol_capacities

section \<open>cancelAll\<close>

text \<open>
  \<^verbatim>\<open>Promise.all\<close> resolves with the list of all values when every promise resolves and
  rejects with the reason of the first promise to reject. Which rejection comes first is
  a matter of timing, so the model gives the set of results a run can have.
\<close>

definition Promise_all :: "(error + 'a) list \<Rightarrow> (error + 'a list) set" where
  "Promise_all ps =
     (if list_all (\<lambda>p. \<not> isl p) ps then {Inr (map projr ps)}
      else Inl ` projl ` set (filter isl ps))"

definition cancelAll ::
  "(string \<Rightarrow> error + block_order list) \<Rightarrow> (string \<Rightarrow> error + 'r) \<Rightarrow> string \<Rightarrow> rpc list
     \<Rightarrow> (error + 'r list) set \<times> rpc list" where
  "cancelAll getBlockOrders cancelBlockOrder market sent =
     (case getBlockOrders market of
        Inl err \<Rightarrow> ({Inl err}, sent @ [GetBlockOrders market])
      | Inr blockOrders \<Rightarrow>
          (let activeBlockOrders = filter (\<lambda>blockOrder. status blockOrder = ''ACTIVE'') blockOrders
           in (Promise_all (map (\<lambda>blockOrder. cancelBlockOrder (blockOrderId blockOrder))
                              activeBlockOrders),
               sent @ [GetBlockOrders market] @
               map (\<lambda>blockOrder. CancelBlockOrder (blockOrderId blockOrder)) activeBlockOrders)))"

section \<open>maxOrderSize\<close>

text \<open>
  \<^verbatim>\<open>1 - 0.05\<close> is the double nearest to 0.95, which JavaScript prints as \<^verbatim>\<open>0.95\<close>;
  big.js reads a number through its printed form, so the factor is the decimal 0.95.
\<close>

definition buffer_factor :: big where
  "buffer_factor = Big 95 2"

text \<open>Lines 95 to 105: the two capacities \<open>(receiveCapacity, sendCapacity)\<close> in base units.\<close>

definition side_capacities :: "string \<Rightarrow> string \<Rightarrow> trading_capacities \<Rightarrow> error + big \<times> big" where
  "side_capacities side price caps =
     (if side = ''BID'' then
        (case Big_of (availableReceiveCapacity (baseSymbolCapacities caps)) of
           Inl e \<Rightarrow> Inl e
         | Inr receiveCapacity \<Rightarrow>
        (case Big_of (availableSendCapacity (counterSymbolCapacities caps)) of
           Inl e \<Rightarrow> Inl e
         | Inr counterSend \<Rightarrow>
        (case Big_of price of
           Inl e \<Rightarrow> Inl e
         | Inr p \<Rightarrow>
        (case Big_div counterSend p of
           Inl e \<Rightarrow> Inl e
         | Inr sendCapacity \<Rightarrow> Inr (receiveCapacity, sendCapacity)))))
      else
        (case Big_of (availableReceiveCapacity (counterSymbolCapacities caps)) of
           Inl e \<Rightarrow> Inl e
         | Inr counterReceive \<Rightarrow>
        (case Big_of price of
           Inl e \<Rightarrow> Inl e
         | Inr p \<Rightarrow>
        (case Big_div counterReceive p of
           Inl e \<Rightarrow> Inl e
         | Inr receiveCapacity \<Rightarrow>
        (case Big_of (availableSendCapacity (baseSymbolCapacities caps)) of
           Inl e \<Rightarrow> Inl e
         | Inr sendCapacity \<Rightarrow> Inr (receiveCapacity, sendCapacity))))))"

text \<open>Lines 107 to 115: the buffer on both, and the smaller one printed.\<close>

definition buffered_size :: "big \<times> big \<Rightarrow> string" where
  "buffered_size rs =
     (let sendCapacity = Big_times (snd rs) buffer_factor;
          receiveCapacity = Big_times (fst rs) buffer_factor
      in if Big_gt receiveCapacity sendCapacity then Big_toFixed 8 sendCapacity
         else Big_toFixed 8 receiveCapacity)"

definition maxOrderSize ::
  "(string \<Rightarrow> error + trading_capacities) \<Rightarrow> string \<Rightarrow> string \<Rightarrow> string \<Rightarrow> rpc list
     \<Rightarrow> (error + string) \<times> rpc list" where
  "maxOrderSize getTradingCapacities market side price sent =
     (if side \<notin> set [''BID'', ''ASK''] then (Inl (InvalidSide side), sent)
      else
        (case getTradingCapacities market of
           Inl err \<Rightarrow> (Inl err, sent @ [GetTradingCapacities market])
         | Inr caps \<Rightarrow>
             (case side_capacities side price caps of
                Inl e \<Rightarrow> (Inl e, sent @ [GetTradingCapacities market])
              | Inr rs \<Rightarrow> (Inr (buffered_size rs), sent @ [GetTradingCapacities market]))))"

section \<open>Watching an order\<close>

datatype event =
    Fill string string      \<comment> \<open>\<^verbatim>\<open>emit('fill', { amount, price })\<close>\<close>
  | Done string             \<comment> \<open>\<^verbatim>\<open>emit('done', status)\<close>\<close>
  | Error error             \<comment> \<open>\<^verbatim>\<open>emit('error', err)\<close>\<close>

text \<open>What the callback of one poll leaves behind: a timer for the next poll, nothing, or
  an exception thrown out of the callback.\<close>

datatype next_poll = Reschedule string | Stop | Throw error

text \<open>\<^verbatim>\<open>order.fillAmount || '0'\<close>: an absent or empty field counts as \<^verbatim>\<open>'0'\<close>.\<close>

definition newFillAmount_of :: "block_order \<Rightarrow> string" where
  "newFillAmount_of order =
     (case fillAmount order of None \<Rightarrow> ''0'' | Some s \<Rightarrow> if s = [] then ''0'' else s)"

text \<open>The callback of \<^verbatim>\<open>watchOrderFillAmounts\<close> (lines 124 to 153) on one answer.\<close>

definition onPoll :: "string \<Rightarrow> string \<Rightarrow> error + block_order \<Rightarrow> event list \<times> next_poll" where
  "onPoll orderId lastFillAmount answer =
     (case answer of
        Inl err \<Rightarrow> ([Error err], Stop)
      | Inr order \<Rightarrow>
          (case Big_of (newFillAmount_of order) of
             Inl e \<Rightarrow> ([], Throw e)
           | Inr n \<Rightarrow>
          (case Big_of lastFillAmount of
             Inl e \<Rightarrow> ([], Throw e)
           | Inr f \<Rightarrow>
               (let fills = (if Big_gt n f
                             then [Fill (Big_toFixed 8 (Big_minus n f)) (limitPrice order)]
                             else [])
                in if status order = ''FAILED'' then (fills @ [Error (OrderFailed orderId)], Stop)
                   else if status order = ''COMPLETE'' then (fills @ [Done (status order)], Stop)
                   else if status order = ''CANCELLED'' then (fills @ [Done (status order)], Stop)
                   else (fills, Reschedule (newFillAmount_of order))))))"

datatype watch_end =
    Running          \<comment> \<open>the last request has no answer yet\<close>
  | Stopped          \<comment> \<open>the callback returned without a new timer\<close>
  | Thrown error     \<comment> \<open>the callback threw\<close>

text \<open>
  The streaming watcher (lines 123 to 156; the source's \<^verbatim>\<open>id\<close> is \<open>orderId\<close> here). It
  polls until a poll ends it, which may be never, so a run is taken against the finite
  list of the broker's answers to the successive polls: the result is the events emitted,
  the requests sent, and how the run stands when the answers are used up (\<open>Running\<close>
  when the watcher is still waiting for an answer). The default \<^verbatim>\<open>fillAmount = 0\<close> is
  the baseline \<open>''0''\<close>.
\<close>

fun watchOrderFillAmounts ::
  "string \<Rightarrow> string \<Rightarrow> (error + block_order) list \<Rightarrow> event list \<times> rpc list \<times> watch_end" where
  "watchOrderFillAmounts orderId lastFillAmount [] = ([], [GetBlockOrder orderId], Running)"
| "watchOrderFillAmounts orderId lastFillAmount (answer # answers) =
     (case snd (onPoll orderId lastFillAmount answer) of
        Stop \<Rightarrow> (fst (onPoll orderId lastFillAmount answer), [GetBlockOrder orderId], Stopped)
      | Throw e \<Rightarrow> (fst (onPoll orderId lastFillAmount answer), [GetBlockOrder orderId], Thrown e)
      | Reschedule newFillAmount \<Rightarrow>
          (case watchOrderFillAmounts orderId newFillAmount answers of
             (events, calls, fin) \<Rightarrow>
               (fst (onPoll orderId lastFillAmount answer) @ events, GetBlockOrder orderId # calls, fin)))"

text \<open>
  The blocking watcher (lines 158 to 176), run against the answers in the same way:
  \<open>None\<close> while the promise is pending (the answers are used up), \<open>Some (Inl err)\<close> when
  it rejects, \<open>Some (Inr status)\<close> when it resolves.
\<close>

fun watchOrder ::
  "string \<Rightarrow> (error + block_order) list \<Rightarrow> (error + string) option \<times> rpc list" where
  "watchOrder orderId [] = (None, [GetBlockOrder orderId])"
| "watchOrder orderId (Inl err # answers) = (Some (Inl err), [GetBlockOrder orderId])"
| "watchOrder orderId (Inr order # answers) =
     (if status order = ''FAILED'' then (Some (Inr ''FAILED''), [GetBlockOrder orderId])
      else if status order = ''COMPLETE'' then (Some (Inr ''COMPLETE''), [GetBlockOrder orderId])
      else if status order = ''CANCELLED'' then (Some (Inr ''CANCELLED''), [GetBlockOrder orderId])
      else (case watchOrder orderId answers of
              (result, calls) \<Rightarrow> (result, GetBlockOrder orderId # calls)))"

section \<open>Notions used in the statements\<close>

text \<open>The terminal statuses of the specification.\<close>

definition terminal :: "string \<Rightarrow> bool" where
  "terminal st = (st = ''FAILED'' \<or> st = ''COMPLETE'' \<or> st = ''CANCELLED'')"

definition decimal :: "string \<Rightarrow> bool" where
  "decimal s = (Big_parse s \<noteq> None)"

definition decimal_value :: "string \<Rightarrow> rat" where
  "decimal_value s = (case Big_parse s of None \<Rightarrow> 0 | Some b \<Rightarrow> Big_val b)"

definition pending :: "error + block_order \<Rightarrow> bool" where
  "pending answer = (case answer of Inl err \<Rightarrow> False | Inr order \<Rightarrow> \<not> terminal (status order))"

definition keeps_polling :: "error + block_order \<Rightarrow> bool" where
  "keeps_polling answer =
     (case answer of
        Inl err \<Rightarrow> False
      | Inr order \<Rightarrow> \<not> terminal (status order) \<and> decimal (newFillAmount_of order))"

definition is_Fill :: "event \<Rightarrow> bool" where
  "is_Fill ev = (case ev of Fill amount price \<Rightarrow> True | _ \<Rightarrow> False)"

fun last_known :: "string \<Rightarrow> (error + block_order) list \<Rightarrow> string" where
  "last_known start [] = start"
| "last_known start (answer # answers) =
     last_known (case answer of Inl err \<Rightarrow> start | Inr order \<Rightarrow> newFillAmount_of order) answers"

text \<open>
  Rounding a rational to \<open>dp\<close> decimal places: half up on the magnitude, which is what
  big.js does, and truncation, which is what the specification says of \<open>maxOrderSize\<close>.
\<close>

definition half_up :: "nat \<Rightarrow> rat \<Rightarrow> rat" where
  "half_up dp x = sgn x * of_int \<lfloor>\<bar>x\<bar> * 10 ^ dp + 1 / 2\<rfloor> / 10 ^ dp"

definition truncated :: "nat \<Rightarrow> rat \<Rightarrow> rat" where
  "truncated dp x = sgn x * of_int \<lfloor>\<bar>x\<bar> * 10 ^ dp\<rfloor> / 10 ^ dp"

text \<open>
  Fixed notation with exactly \<open>dp\<close> digits after the point: an optional sign, at least
  one digit, the point and \<open>dp\<close> digits.
\<close>

definition fixed_format :: "nat \<Rightarrow> string \<Rightarrow> bool" where
  "fixed_format dp s =
     (let u = (if s \<noteq> [] \<and> hd s = CHR ''-'' then tl s else s);
          ip = takeWhile is_digit u;
          r = dropWhile is_digit u
      in ip \<noteq> [] \<and> r \<noteq> [] \<and> hd r = CHR ''.'' \<and> list_all is_digit (tl r) \<and> length (tl r) = dp)"

text \<open>
  The polls at which the fill amount rises, as pairs of the last-known amount and the
  polled order, and the fill event the specification expects of such a poll (with the
  rounding of \<^verbatim>\<open>toFixed(8)\<close>).
\<close>

definition rises :: "string \<times> block_order \<Rightarrow> bool" where
  "rises p = (decimal_value (fst p) < decimal_value (newFillAmount_of (snd p)))"

definition fill_event_of :: "event \<Rightarrow> string \<times> block_order \<Rightarrow> bool" where
  "fill_event_of ev p =
     (case ev of
        Fill amount price \<Rightarrow>
          price = limitPrice (snd p) \<and> fixed_format 8 amount \<and> decimal amount \<and>
          decimal_value amount
            = half_up 8 (decimal_value (newFillAmount_of (snd p)) - decimal_value (fst p))
      | _ \<Rightarrow> False)"

text \<open>The notification a poll ends the streaming watch with, if it ends it.\<close>

definition end_events :: "string \<Rightarrow> block_order \<Rightarrow> event list" where
  "end_events orderId order =
     (if status order = ''FAILED'' then [Error (OrderFailed orderId)]
      else if terminal (status order) then [Done (status order)]
      else [])"

definition decimal_quote :: "trading_capacities \<Rightarrow> bool" where
  "decimal_quote caps =
     (decimal (availableSendCapacity (baseSymbolCapacities caps)) \<and>
      decimal (availableReceiveCapacity (baseSymbolCapacities caps)) \<and>
      decimal (availableSendCapacity (counterSymbolCapacities caps)) \<and>
      decimal (availableReceiveCapacity (counterSymbolCapacities caps)))"

text \<open>
  The two capacities \<open>(receive, send)\<close> of section 4.1 of the specification, in base
  units: the quotient by the price is exact.
\<close>

definition spec_capacities :: "string \<Rightarrow> string \<Rightarrow> trading_capacities \<Rightarrow> rat \<times> rat" where
  "spec_capacities side price caps =
     (if side = ''BID''
      then (decimal_value (availableReceiveCapacity (baseSymbolCapacities caps)),
            decimal_value (availableSendCapacity (counterSymbolCapacities caps))
              / decimal_value price)
      else (decimal_value (availableReceiveCapacity (counterSymbolCapacities caps))
              / decimal_value price,
            decimal_value (availableSendCapacity (baseSymbolCapacities caps))))"

text \<open>The result the specification states: the smaller capacity times 0.95, truncated to 8 places.\<close>

definition spec_maxOrderSize :: "string \<Rightarrow> string \<Rightarrow> trading_capacities \<Rightarrow> rat" where
  "spec_maxOrderSize side price caps =
     truncated 8 (min (snd (spec_capacities side price caps))
                      (fst (spec_capacities side price caps)) * (95 / 100))"

text \<open>The same capacities with the quotient rounded half up to 20 places, as \<^verbatim>\<open>div\<close> leaves it.\<close>

definition rounded_capacities :: "string \<Rightarrow> string \<Rightarrow> trading_capacities \<Rightarrow> rat \<times> rat" where
  "rounded_capacities side price caps =
     (if side = ''BID''
      then (decimal_value (availableReceiveCapacity (baseSymbolCapacities caps)),
            half_up 20 (decimal_value (availableSendCapacity (counterSymbolCapacities caps))
              / decimal_value price))
      else (half_up 20 (decimal_value (availableReceiveCapacity (counterSymbolCapacities caps))
              / decimal_value price),
            decimal_value (availableSendCapacity (baseSymbolCapacities caps))))"

definition sample_quote :: trading_capacities where
  "sample_quote =
     \<lparr>baseSymbolCapacities =
        \<lparr>availableSendCapacity = ''0.5'', availableReceiveCapacity = ''1.00000001''\<rparr>,
      counterSymbolCapacities =
        \<lparr>availableSendCapacity = ''100'', availableReceiveCapacity = ''2''\<rparr>\<rparr>"

definition tiny_quote :: trading_capacities where
  "tiny_quote =
     \<lparr>baseSymbolCapacities =
        \<lparr>availableSendCapacity = ''1'', availableReceiveCapacity = ''1''\<rparr>,
      counterSymbolCapacities =
        \<lparr>availableSendCapacity = ''0.0000000999999999999996'', availableReceiveCapacity = ''1''\<rparr>\<rparr>"

definition sample_order :: "string \<Rightarrow> string option \<Rightarrow> block_order" where
  "sample_order st amount =
     \<lparr>blockOrderId = ''order-1'', status = st, fillAmount = amount, limitPrice = ''9000''\<rparr>"

section \<open>Evaluating the decimal operations\<close>

lemma digits_small: "n < 10 \<Longrightarrow> digits n = [digit_char n]"
  by (simp add: digits.simps)

lemma digits_large: "10 \<le> n \<Longrightarrow> digits n = digits (n div 10) @ [digit_char (n mod 10)]"
  by (simp add: digits.simps)

lemmas Big_eval =
  Big_of_def Big_parse_def Let_def is_digit_def digit_val_def nat_of_digits_def
  parse_exponent_def Big_div_def Big_DP_def Big_times_def Big_minus_def Big_gt_def
  Big_toFixed_def Big_round_def pad_zeros_def digit_char_def digits_small digits_large

section \<open>maxOrderSize: the side check\<close>

text \<open>
  C5. For every side other than \<open>BID\<close> and \<open>ASK\<close>, \<open>maxOrderSize\<close> fails with the
  invalid-side error (the \<^verbatim>\<open>Error\<close> thrown at line 84), whatever the market, the price
  and the broker's answer are.
\<close>

theorem maxOrderSize_invalid_side:
  assumes "side \<noteq> ''BID''" and "side \<noteq> ''ASK''"
  shows "fst (maxOrderSize getTradingCapacities market side price sent) = Inl (InvalidSide side)"
  using assms by (simp add: maxOrderSize_def)

theorem maxOrderSize_invalid_side_witness:
  "''SELL'' \<noteq> ''BID'' \<and> ''SELL'' \<noteq> ''ASK'' \<and>
   fst (maxOrderSize (\<lambda>market. Inl (RpcError ''unavailable'')) ''BTC/USD'' ''SELL'' ''10000'' [])
     = Inl (InvalidSide ''SELL'')"
  using maxOrderSize_invalid_side
    [of "''SELL''" "\<lambda>market. Inl (RpcError ''unavailable'')" "''BTC/USD''" "''10000''" "[]"]
  by simp

text \<open>
  C9. On such a side the check at line 83 comes before the capacity fetch at line 90: the
  list of requests sent is left as it was, so no \<open>GetTradingCapacities\<close> request is made.
\<close>

theorem maxOrderSize_invalid_side_no_request:
  assumes "side \<notin> {''BID'', ''ASK''}"
  shows "snd (maxOrderSize getTradingCapacities market side price sent) = sent"
  using assms by (simp add: maxOrderSize_def)

theorem maxOrderSize_invalid_side_no_request_witness:
  "''buy'' \<notin> {''BID'', ''ASK''} \<and>
   snd (maxOrderSize (\<lambda>market. Inl (RpcError ''unavailable'')) ''BTC/USD'' ''buy'' ''1'' []) = []"
  using maxOrderSize_invalid_side_no_request
    [of "''buy''" "\<lambda>market. Inl (RpcError ''unavailable'')" "''BTC/USD''" "''1''" "[]"]
  by simp

section \<open>maxOrderSize: the worked example\<close>

text \<open>
  C7. Market \<open>BTC/USD\<close>, side \<open>BID\<close>, price \<open>10000\<close>, base receive capacity \<open>2.0\<close> and
  counter send capacity \<open>10000\<close>: the receive capacity is 2 and the send capacity 1, with
  the buffer they are 1.9 and 0.95, and the result is the string \<open>0.95000000\<close>. The two
  capacities a bid does not read (\<open>bs\<close>, \<open>cr\<close>) can be anything.
\<close>

theorem maxOrderSize_example:
  "maxOrderSize
     (\<lambda>market. Inr \<lparr>baseSymbolCapacities =
                       \<lparr>availableSendCapacity = bs, availableReceiveCapacity = ''2.0''\<rparr>,
                     counterSymbolCapacities =
                       \<lparr>availableSendCapacity = ''10000'', availableReceiveCapacity = cr\<rparr>\<rparr>)
     ''BTC/USD'' ''BID'' ''10000'' sent
   = (Inr ''0.95000000'', sent @ [GetTradingCapacities ''BTC/USD''])
   \<and> map_sum id (map_prod Big_val Big_val)
       (side_capacities ''BID'' ''10000''
          \<lparr>baseSymbolCapacities =
             \<lparr>availableSendCapacity = bs, availableReceiveCapacity = ''2.0''\<rparr>,
           counterSymbolCapacities =
             \<lparr>availableSendCapacity = ''10000'', availableReceiveCapacity = cr\<rparr>\<rparr>)
     = Inr (2, 1)
   \<and> Big_val (Big_times (Big 20 1) buffer_factor) = 19 / 10
   \<and> Big_val (Big_times (Big 100000000000000000000 20) buffer_factor) = 95 / 100"
  by (simp add: maxOrderSize_def side_capacities_def buffered_size_def buffer_factor_def
      Big_val_def Big_eval)

section \<open>cancelAll\<close>

lemma Promise_all_resolved:
  "list_all (\<lambda>p. \<not> isl p) ps \<Longrightarrow> Promise_all ps = {Inr (map projr ps)}"
  by (simp add: Promise_all_def)

lemma Promise_all_rejected:
  "\<not> list_all (\<lambda>p. \<not> isl p) ps \<Longrightarrow> Promise_all ps = {Inl e |e. Inl e \<in> set ps}"
proof -
  assume "\<not> list_all (\<lambda>p. \<not> isl p) ps"
  then have "Promise_all ps = Inl ` projl ` set (filter isl ps)"
    by (simp add: Promise_all_def)
  also have "\<dots> = {Inl e |e. Inl e \<in> set ps}"
  proof (rule set_eqI)
    fix r :: "error + 'a list"
    show "r \<in> Inl ` projl ` set (filter isl ps) \<longleftrightarrow> r \<in> {Inl e |e. Inl e \<in> set ps}"
    proof
      assume "r \<in> Inl ` projl ` set (filter isl ps)"
      then obtain p where p: "p \<in> set ps" "isl p" "r = Inl (projl p)"
        by auto
      then have "Inl (projl p) = p"
        by (cases p) simp_all
      with p show "r \<in> {Inl e |e. Inl e \<in> set ps}"
        by auto
    next
      assume "r \<in> {Inl e |e. Inl e \<in> set ps}"
      then obtain e where "r = Inl e" "Inl e \<in> set ps"
        by auto
      then show "r \<in> Inl ` projl ` set (filter isl ps)"
        by force
    qed
  qed
  finally show ?thesis .
qed

lemma cancelAll_run:
  assumes "getBlockOrders market = Inr blockOrders"
  shows "cancelAll getBlockOrders cancelBlockOrder market sent
      = (Promise_all (map (\<lambda>blockOrder. cancelBlockOrder (blockOrderId blockOrder))
                        (filter (\<lambda>blockOrder. status blockOrder = ''ACTIVE'') blockOrders)),
         sent @ [GetBlockOrders market] @
         map (\<lambda>blockOrder. CancelBlockOrder (blockOrderId blockOrder))
           (filter (\<lambda>blockOrder. status blockOrder = ''ACTIVE'') blockOrders))"
  using assms by (simp add: cancelAll_def Let_def)

lemma cancelAll_request_iff:
  assumes "getBlockOrders market = Inr blockOrders"
  shows "CancelBlockOrder i \<in> set (drop (length sent) (snd (cancelAll getBlockOrders cancelBlockOrder market sent)))
      \<longleftrightarrow> (\<exists>blockOrder \<in> set blockOrders. status blockOrder = ''ACTIVE'' \<and> blockOrderId blockOrder = i)"
  by (auto simp add: cancelAll_run [of getBlockOrders market blockOrders, OF assms])

lemma cancelAll_resolves:
  assumes "getBlockOrders market = Inr blockOrders"
    and "\<forall>blockOrder \<in> set blockOrders. status blockOrder = ''ACTIVE'' \<longrightarrow>
            \<not> isl (cancelBlockOrder (blockOrderId blockOrder))"
  shows "fst (cancelAll getBlockOrders cancelBlockOrder market sent)
      = {Inr (map (\<lambda>blockOrder. projr (cancelBlockOrder (blockOrderId blockOrder)))
              (filter (\<lambda>blockOrder. status blockOrder = ''ACTIVE'') blockOrders))}"
proof -
  let ?outcomes = "map (\<lambda>blockOrder. cancelBlockOrder (blockOrderId blockOrder))
                     (filter (\<lambda>blockOrder. status blockOrder = ''ACTIVE'') blockOrders)"
  from assms(2) have "list_all (\<lambda>p. \<not> isl p) ?outcomes"
    by (simp add: list_all_iff)
  then have "Promise_all ?outcomes = {Inr (map projr ?outcomes)}"
    by (rule Promise_all_resolved)
  then show ?thesis
    by (simp add: cancelAll_run [of getBlockOrders market blockOrders, OF assms(1)] comp_def)
qed

lemma cancelAll_rejects:
  assumes "getBlockOrders market = Inr blockOrders"
    and "\<exists>blockOrder \<in> set blockOrders. status blockOrder = ''ACTIVE'' \<and>
            isl (cancelBlockOrder (blockOrderId blockOrder))"
  shows "fst (cancelAll getBlockOrders cancelBlockOrder market sent)
      = {Inl e |e. \<exists>blockOrder \<in> set blockOrders. status blockOrder = ''ACTIVE'' \<and>
                     cancelBlockOrder (blockOrderId blockOrder) = Inl e}"
proof -
  let ?outcomes = "map (\<lambda>blockOrder. cancelBlockOrder (blockOrderId blockOrder))
                     (filter (\<lambda>blockOrder. status blockOrder = ''ACTIVE'') blockOrders)"
  from assms(2) have "\<not> list_all (\<lambda>p. \<not> isl p) ?outcomes"
    by (auto simp add: list_all_iff)
  then have "Promise_all ?outcomes = {Inl e |e. Inl e \<in> set ?outcomes}"
    by (rule Promise_all_rejected)
  also have "\<dots> = {Inl e |e. \<exists>blockOrder \<in> set blockOrders. status blockOrder = ''ACTIVE'' \<and>
                        cancelBlockOrder (blockOrderId blockOrder) = Inl e}"
    by (auto simp add: image_iff) metis
  finally show ?thesis
    by (simp add: cancelAll_run [of getBlockOrders market blockOrders, OF assms(1)])
qed

text \<open>
  C6. When the listing answers with \<open>blockOrders\<close>, the requests \<open>cancelAll\<close> sends after
  the listing are one cancellation per order of status \<open>ACTIVE\<close>, in the order of the
  listing, and nothing else: an identifier is cancelled exactly when an \<open>ACTIVE\<close> order
  carries it. The result aggregates the outcomes of those cancellations and of no other:
  the list of all of them when all succeed, and otherwise a rejection with the error of
  one of them.
\<close>

theorem cancelAll_only_active:
  assumes "getBlockOrders market = Inr blockOrders"
  shows "snd (cancelAll getBlockOrders cancelBlockOrder market sent)
           = sent @ [GetBlockOrders market] @
             map (\<lambda>blockOrder. CancelBlockOrder (blockOrderId blockOrder))
               (filter (\<lambda>blockOrder. status blockOrder = ''ACTIVE'') blockOrders)
       \<and> (\<forall>i. CancelBlockOrder i \<in> set (drop (length sent)
                   (snd (cancelAll getBlockOrders cancelBlockOrder market sent)))
           \<longleftrightarrow> (\<exists>blockOrder \<in> set blockOrders.
                   status blockOrder = ''ACTIVE'' \<and> blockOrderId blockOrder = i))
       \<and> ((\<forall>blockOrder \<in> set blockOrders. status blockOrder = ''ACTIVE'' \<longrightarrow>
              \<not> isl (cancelBlockOrder (blockOrderId blockOrder))) \<longrightarrow>
           fst (cancelAll getBlockOrders cancelBlockOrder market sent)
             = {Inr (map (\<lambda>blockOrder. projr (cancelBlockOrder (blockOrderId blockOrder)))
                     (filter (\<lambda>blockOrder. status blockOrder = ''ACTIVE'') blockOrders))})
       \<and> ((\<exists>blockOrder \<in> set blockOrders. status blockOrder = ''ACTIVE'' \<and>
              isl (cancelBlockOrder (blockOrderId blockOrder))) \<longrightarrow>
           fst (cancelAll getBlockOrders cancelBlockOrder market sent)
             = {Inl e |e. \<exists>blockOrder \<in> set blockOrders. status blockOrder = ''ACTIVE'' \<and>
                            cancelBlockOrder (blockOrderId blockOrder) = Inl e})"
proof (intro conjI allI impI)
  show "snd (cancelAll getBlockOrders cancelBlockOrder market sent)
           = sent @ [GetBlockOrders market] @
             map (\<lambda>blockOrder. CancelBlockOrder (blockOrderId blockOrder))
               (filter (\<lambda>blockOrder. status blockOrder = ''ACTIVE'') blockOrders)"
    by (simp add: cancelAll_run [of getBlockOrders market blockOrders, OF assms])
next
  fix i
  show "CancelBlockOrder i \<in> set (drop (length sent)
                   (snd (cancelAll getBlockOrders cancelBlockOrder market sent)))
           \<longleftrightarrow> (\<exists>blockOrder \<in> set blockOrders.
                   status blockOrder = ''ACTIVE'' \<and> blockOrderId blockOrder = i)"
    by (rule cancelAll_request_iff [of getBlockOrders market blockOrders, OF assms])
next
  assume "\<forall>blockOrder \<in> set blockOrders. status blockOrder = ''ACTIVE'' \<longrightarrow>
              \<not> isl (cancelBlockOrder (blockOrderId blockOrder))"
  then show "fst (cancelAll getBlockOrders cancelBlockOrder market sent)
             = {Inr (map (\<lambda>blockOrder. projr (cancelBlockOrder (blockOrderId blockOrder)))
                     (filter (\<lambda>blockOrder. status blockOrder = ''ACTIVE'') blockOrders))}"
    by (rule cancelAll_resolves [of getBlockOrders market blockOrders, OF assms])
next
  assume "\<exists>blockOrder \<in> set blockOrders. status blockOrder = ''ACTIVE'' \<and>
              isl (cancelBlockOrder (blockOrderId blockOrder))"
  then show "fst (cancelAll getBlockOrders cancelBlockOrder market sent)
             = {Inl e |e. \<exists>blockOrder \<in> set blockOrders. status blockOrder = ''ACTIVE'' \<and>
                            cancelBlockOrder (blockOrderId blockOrder) = Inl e}"
    by (rule cancelAll_rejects [of getBlockOrders market blockOrders, OF assms])
qed

theorem cancelAll_only_active_witness:
  "(\<lambda>market. Inr [\<lparr>blockOrderId = ''a'', status = ''ACTIVE'', fillAmount = None, limitPrice = ''1''\<rparr>,
                   \<lparr>blockOrderId = ''b'', status = ''FAILED'', fillAmount = None, limitPrice = ''1''\<rparr>,
                   \<lparr>blockOrderId = ''c'', status = ''ACTIVE'', fillAmount = None, limitPrice = ''1''\<rparr>])
     ''BTC/USD''
     = (Inr [\<lparr>blockOrderId = ''a'', status = ''ACTIVE'', fillAmount = None, limitPrice = ''1''\<rparr>,
             \<lparr>blockOrderId = ''b'', status = ''FAILED'', fillAmount = None, limitPrice = ''1''\<rparr>,
             \<lparr>blockOrderId = ''c'', status = ''ACTIVE'', fillAmount = None, limitPrice = ''1''\<rparr>]
        :: error + block_order list)
   \<and> snd (cancelAll
       (\<lambda>market. Inr [\<lparr>blockOrderId = ''a'', status = ''ACTIVE'', fillAmount = None, limitPrice = ''1''\<rparr>,
                      \<lparr>blockOrderId = ''b'', status = ''FAILED'', fillAmount = None, limitPrice = ''1''\<rparr>,
                      \<lparr>blockOrderId = ''c'', status = ''ACTIVE'', fillAmount = None, limitPrice = ''1''\<rparr>])
       (\<lambda>i. Inr (''cancelled '' @ i)) ''BTC/USD'' [])
     = [GetBlockOrders ''BTC/USD'', CancelBlockOrder ''a'', CancelBlockOrder ''c'']
   \<and> fst (cancelAll
       (\<lambda>market. Inr [\<lparr>blockOrderId = ''a'', status = ''ACTIVE'', fillAmount = None, limitPrice = ''1''\<rparr>,
                      \<lparr>blockOrderId = ''b'', status = ''FAILED'', fillAmount = None, limitPrice = ''1''\<rparr>,
                      \<lparr>blockOrderId = ''c'', status = ''ACTIVE'', fillAmount = None, limitPrice = ''1''\<rparr>])
       (\<lambda>i. Inr (''cancelled '' @ i)) ''BTC/USD'' [])
     = {Inr [''cancelled a'', ''cancelled c'']}
   \<and> fst (cancelAll
       (\<lambda>market. Inr [\<lparr>blockOrderId = ''a'', status = ''ACTIVE'', fillAmount = None, limitPrice = ''1''\<rparr>,
                      \<lparr>blockOrderId = ''b'', status = ''FAILED'', fillAmount = None, limitPrice = ''1''\<rparr>,
                      \<lparr>blockOrderId = ''c'', status = ''ACTIVE'', fillAmount = None, limitPrice = ''1''\<rparr>])
       (\<lambda>i. if i = ''c'' then Inl (RpcError ''gone'') else Inr i) ''BTC/USD'' [])
     = {Inl (RpcError ''gone'')}"
proof -
  let ?orders = "[\<lparr>blockOrderId = ''a'', status = ''ACTIVE'', fillAmount = None, limitPrice = ''1''\<rparr>,
                  \<lparr>blockOrderId = ''b'', status = ''FAILED'', fillAmount = None, limitPrice = ''1''\<rparr>,
                  \<lparr>blockOrderId = ''c'', status = ''ACTIVE'', fillAmount = None, limitPrice = ''1''\<rparr>]"
  have listing: "(\<lambda>market. Inr ?orders) ''BTC/USD'' = (Inr ?orders :: error + block_order list)"
    by simp
  have ok: "\<forall>blockOrder \<in> set ?orders. status blockOrder = ''ACTIVE'' \<longrightarrow>
              \<not> isl ((\<lambda>i. Inr (''cancelled '' @ i) :: error + string) (blockOrderId blockOrder))"
    by simp
  have bad: "\<exists>blockOrder \<in> set ?orders. status blockOrder = ''ACTIVE'' \<and>
              isl ((\<lambda>i. if i = ''c'' then Inl (RpcError ''gone'') else Inr i :: error + string)
                     (blockOrderId blockOrder))"
    by simp
  have errs: "{Inl e |e. \<exists>blockOrder \<in> set ?orders. status blockOrder = ''ACTIVE'' \<and>
                  (\<lambda>i. if i = ''c'' then Inl (RpcError ''gone'') else Inr i :: error + string)
                    (blockOrderId blockOrder) = Inl e}
              = {Inl (RpcError ''gone'') :: error + string list}"
    by auto
  from cancelAll_only_active [of "\<lambda>market. Inr ?orders" "''BTC/USD''" ?orders
      "\<lambda>i. Inr (''cancelled '' @ i) :: error + string" "[]", OF listing] ok
  have first: "snd (cancelAll (\<lambda>market. Inr ?orders) (\<lambda>i. Inr (''cancelled '' @ i) :: error + string)
                  ''BTC/USD'' [])
        = [GetBlockOrders ''BTC/USD'', CancelBlockOrder ''a'', CancelBlockOrder ''c'']
      \<and> fst (cancelAll (\<lambda>market. Inr ?orders) (\<lambda>i. Inr (''cancelled '' @ i) :: error + string)
                  ''BTC/USD'' [])
        = {Inr [''cancelled a'', ''cancelled c'']}"
    by simp
  from cancelAll_only_active [of "\<lambda>market. Inr ?orders" "''BTC/USD''" ?orders
      "\<lambda>i. if i = ''c'' then Inl (RpcError ''gone'') else Inr i :: error + string" "[]", OF listing]
    bad
  have "fst (cancelAll (\<lambda>market. Inr ?orders)
               (\<lambda>i. if i = ''c'' then Inl (RpcError ''gone'') else Inr i :: error + string)
               ''BTC/USD'' [])
        = {Inl e |e. \<exists>blockOrder \<in> set ?orders. status blockOrder = ''ACTIVE'' \<and>
                  (\<lambda>i. if i = ''c'' then Inl (RpcError ''gone'') else Inr i :: error + string)
                    (blockOrderId blockOrder) = Inl e}"
    by blast
  with errs have second: "fst (cancelAll (\<lambda>market. Inr ?orders)
               (\<lambda>i. if i = ''c'' then Inl (RpcError ''gone'') else Inr i :: error + string)
               ''BTC/USD'' [])
        = {Inl (RpcError ''gone'')}"
    by simp
  from listing first second show ?thesis
    by blast
qed

text \<open>
  C10. When the listing succeeds and holds no order of status \<open>ACTIVE\<close> (the empty
  listing included), \<open>cancelAll\<close> sends the listing request and no cancellation, and
  resolves with the empty list.
\<close>

theorem cancelAll_no_active:
  assumes "getBlockOrders market = Inr blockOrders"
    and "\<forall>blockOrder \<in> set blockOrders. status blockOrder \<noteq> ''ACTIVE''"
  shows "cancelAll getBlockOrders cancelBlockOrder market sent
           = ({Inr []}, sent @ [GetBlockOrders market])"
proof -
  from assms(2) have "filter (\<lambda>blockOrder. status blockOrder = ''ACTIVE'') blockOrders = []"
    by (simp add: filter_empty_conv)
  then show ?thesis
    by (simp add: cancelAll_run [of getBlockOrders market blockOrders, OF assms(1)]
        Promise_all_def)
qed

theorem cancelAll_no_active_witness:
  "(\<lambda>market. Inr [\<lparr>blockOrderId = ''a'', status = ''COMPLETE'', fillAmount = Some ''1'', limitPrice = ''1''\<rparr>,
                   \<lparr>blockOrderId = ''b'', status = ''CANCELLED'', fillAmount = None, limitPrice = ''1''\<rparr>])
     ''BTC/USD''
     = (Inr [\<lparr>blockOrderId = ''a'', status = ''COMPLETE'', fillAmount = Some ''1'', limitPrice = ''1''\<rparr>,
             \<lparr>blockOrderId = ''b'', status = ''CANCELLED'', fillAmount = None, limitPrice = ''1''\<rparr>]
        :: error + block_order list)
   \<and> list_all (\<lambda>blockOrder. status blockOrder \<noteq> ''ACTIVE'')
       [\<lparr>blockOrderId = ''a'', status = ''COMPLETE'', fillAmount = Some ''1'', limitPrice = ''1''\<rparr>,
        \<lparr>blockOrderId = ''b'', status = ''CANCELLED'', fillAmount = None, limitPrice = ''1''\<rparr>]
   \<and> cancelAll
       (\<lambda>market. Inr [\<lparr>blockOrderId = ''a'', status = ''COMPLETE'', fillAmount = Some ''1'', limitPrice = ''1''\<rparr>,
                      \<lparr>blockOrderId = ''b'', status = ''CANCELLED'', fillAmount = None, limitPrice = ''1''\<rparr>])
       (\<lambda>i. Inl (RpcError i) :: error + unit) ''BTC/USD'' []
     = ({Inr []}, [GetBlockOrders ''BTC/USD''])
   \<and> cancelAll (\<lambda>market. Inr []) (\<lambda>i. Inl (RpcError i) :: error + unit) ''BTC/USD'' []
     = ({Inr []}, [GetBlockOrders ''BTC/USD''])"
  using cancelAll_no_active
      [of "\<lambda>market. Inr [\<lparr>blockOrderId = ''a'', status = ''COMPLETE'', fillAmount = Some ''1'', limitPrice = ''1''\<rparr>,
                            \<lparr>blockOrderId = ''b'', status = ''CANCELLED'', fillAmount = None, limitPrice = ''1''\<rparr>]"
          "''BTC/USD''"
          "[\<lparr>blockOrderId = ''a'', status = ''COMPLETE'', fillAmount = Some ''1'', limitPrice = ''1''\<rparr>,
            \<lparr>blockOrderId = ''b'', status = ''CANCELLED'', fillAmount = None, limitPrice = ''1''\<rparr>]"
          "\<lambda>i. Inl (RpcError i) :: error + unit" "[]"]
    cancelAll_no_active [of "\<lambda>market. Inr []" "''BTC/USD''" "[]"
          "\<lambda>i. Inl (RpcError i) :: error + unit" "[]"]
  by simp

lemma Big_gt_iff: "Big_gt x y \<longleftrightarrow> Big_val y < Big_val x"
proof -
  have "Big_val y < Big_val x \<longleftrightarrow>
        of_int (coef y) * 10 ^ scale x < (of_int (coef x) * 10 ^ scale y :: rat)"
    by (simp add: Big_val_def field_simps)
  also have "\<dots> \<longleftrightarrow> (of_int (coef y * 10 ^ scale x) :: rat) < of_int (coef x * 10 ^ scale y)"
    by simp
  also have "\<dots> \<longleftrightarrow> coef y * 10 ^ scale x < coef x * 10 ^ scale y"
    by (simp only: of_int_less_iff)
  finally show ?thesis
    by (simp add: Big_gt_def)
qed

section \<open>Watching an order: runs of polls\<close>

lemma watchOrder_pending:
  "list_all pending pre \<Longrightarrow>
   watchOrder orderId (pre @ rest)
     = (fst (watchOrder orderId rest),
        replicate (length pre) (GetBlockOrder orderId) @ snd (watchOrder orderId rest))"
proof (induction pre)
  case Nil
  then show ?case by simp
next
  case (Cons a pre)
  then obtain order where a: "a = Inr order" and nt: "\<not> terminal (status order)"
    by (cases a) (simp_all add: pending_def)
  from Cons have "watchOrder orderId (pre @ rest)
     = (fst (watchOrder orderId rest),
        replicate (length pre) (GetBlockOrder orderId) @ snd (watchOrder orderId rest))"
    by simp
  with a nt show ?case
    by (simp add: terminal_def)
qed

lemma onPoll_order:
  assumes "Big_parse (newFillAmount_of order) = Some n" and "Big_parse lastFillAmount = Some f"
  shows "onPoll orderId lastFillAmount (Inr order)
     = ((if Big_val f < Big_val n
         then [Fill (Big_toFixed 8 (Big_minus n f)) (limitPrice order)] else []) @
        (if status order = ''FAILED'' then [Error (OrderFailed orderId)]
         else if terminal (status order) then [Done (status order)] else []),
        if terminal (status order) then Stop else Reschedule (newFillAmount_of order))"
  using assms by (simp add: onPoll_def Big_of_def Big_gt_iff terminal_def Let_def)


lemma onPoll_keeps_polling:
  assumes "keeps_polling answer" and "decimal lastFillAmount"
  shows "snd (onPoll orderId lastFillAmount answer)
           = Reschedule (last_known lastFillAmount [answer])"
    and "list_all is_Fill (fst (onPoll orderId lastFillAmount answer))"
    and "decimal (last_known lastFillAmount [answer])"
proof -
  from assms(1) obtain order where a: "answer = Inr order" and nt: "\<not> terminal (status order)"
    and d: "decimal (newFillAmount_of order)"
    by (cases answer) (simp_all add: keeps_polling_def)
  from d obtain n where n: "Big_parse (newFillAmount_of order) = Some n"
    by (auto simp add: decimal_def)
  from assms(2) obtain f where f: "Big_parse lastFillAmount = Some f"
    by (auto simp add: decimal_def)
  from nt have nf: "status order \<noteq> ''FAILED''"
    by (auto simp add: terminal_def)
  show "snd (onPoll orderId lastFillAmount answer) = Reschedule (last_known lastFillAmount [answer])"
    using nt by (simp add: a onPoll_order [OF n f])
  show "list_all is_Fill (fst (onPoll orderId lastFillAmount answer))"
    using nt nf by (simp add: a onPoll_order [OF n f] is_Fill_def)
  show "decimal (last_known lastFillAmount [answer])"
    using d by (simp add: a)
qed

lemma last_known_append:
  "last_known start (xs @ ys) = last_known (last_known start xs) ys"
  by (induction xs arbitrary: start) simp_all

lemma watch_keeps_polling:
  assumes "list_all keeps_polling pre" and "decimal start"
  shows "watchOrderFillAmounts orderId start (pre @ rest)
      = (fst (watchOrderFillAmounts orderId start pre) @
           fst (watchOrderFillAmounts orderId (last_known start pre) rest),
         replicate (length pre) (GetBlockOrder orderId) @
           fst (snd (watchOrderFillAmounts orderId (last_known start pre) rest)),
         snd (snd (watchOrderFillAmounts orderId (last_known start pre) rest)))
    \<and> list_all is_Fill (fst (watchOrderFillAmounts orderId start pre))
    \<and> decimal (last_known start pre)"
  using assms
proof (induction pre arbitrary: start)
  case Nil
  then show ?case by simp
next
  case (Cons a pre)
  let ?next = "last_known start [a]"
  from Cons.prems have a: "keeps_polling a" and pre: "list_all keeps_polling pre"
    by simp_all
  note step = onPoll_keeps_polling(1) [OF a Cons.prems(2), of orderId]
    onPoll_keeps_polling(2) [OF a Cons.prems(2), of orderId]
    onPoll_keeps_polling(3) [OF a Cons.prems(2)]
  have lk: "last_known start (a # pre) = last_known ?next pre"
    by simp
  from Cons.IH [OF pre step(3)]
  have IH: "watchOrderFillAmounts orderId ?next (pre @ rest)
      = (fst (watchOrderFillAmounts orderId ?next pre) @
           fst (watchOrderFillAmounts orderId (last_known ?next pre) rest),
         replicate (length pre) (GetBlockOrder orderId) @
           fst (snd (watchOrderFillAmounts orderId (last_known ?next pre) rest)),
         snd (snd (watchOrderFillAmounts orderId (last_known ?next pre) rest)))"
    and fills: "list_all is_Fill (fst (watchOrderFillAmounts orderId ?next pre))"
    and dec: "decimal (last_known ?next pre)"
    by simp_all
  have unfold: "\<And>xs. watchOrderFillAmounts orderId start (a # xs)
      = (fst (onPoll orderId start a) @ fst (watchOrderFillAmounts orderId ?next xs),
         GetBlockOrder orderId # fst (snd (watchOrderFillAmounts orderId ?next xs)),
         snd (snd (watchOrderFillAmounts orderId ?next xs)))"
    using step(1) by (simp add: case_prod_beta)
  show ?case
    using step(2) fills dec
    by (simp add: unfold [of "pre @ rest"] unfold [of pre] IH lk
        del: last_known.simps watchOrderFillAmounts.simps)
qed


lemma watch_first_request:
  "take 1 (fst (snd (watchOrderFillAmounts orderId start answers))) = [GetBlockOrder orderId]"
  by (cases answers) (simp_all add: case_prod_beta split: next_poll.split)

lemma watchOrder_first_request:
  "take 1 (snd (watchOrder orderId answers)) = [GetBlockOrder orderId]"
  by (induction orderId answers rule: watchOrder.induct) (simp_all add: case_prod_beta)

lemma onPoll_terminal:
  assumes "terminal (status order)" and "decimal (newFillAmount_of order)" and "decimal start"
  shows "\<exists>fills. list_all is_Fill fills \<and>
           watchOrderFillAmounts orderId start (Inr order # rest)
             = (fills @ [if status order = ''FAILED'' then Error (OrderFailed orderId)
                         else Done (status order)],
                [GetBlockOrder orderId], Stopped)"
proof -
  from assms(2) obtain n where n: "Big_parse (newFillAmount_of order) = Some n"
    by (auto simp add: decimal_def)
  from assms(3) obtain f where f: "Big_parse start = Some f"
    by (auto simp add: decimal_def)
  let ?fills = "if Big_val f < Big_val n
                then [Fill (Big_toFixed 8 (Big_minus n f)) (limitPrice order)] else []"
  have "list_all is_Fill ?fills"
    by (simp add: is_Fill_def)
  moreover have "watchOrderFillAmounts orderId start (Inr order # rest)
             = (?fills @ [if status order = ''FAILED'' then Error (OrderFailed orderId)
                         else Done (status order)],
                [GetBlockOrder orderId], Stopped)"
    using assms(1) by (simp add: onPoll_order [OF n f])
  ultimately show ?thesis
    by blast
qed

lemma watch_terminal:
  assumes "terminal (status order)" and "list_all keeps_polling pre"
    and "decimal (newFillAmount_of order)"
  shows "snd (watchOrderFillAmounts orderId ''0'' (pre @ Inr order # rest))
           = (replicate (Suc (length pre)) (GetBlockOrder orderId), Stopped)"
    and "\<exists>fills. list_all is_Fill fills \<and>
           fst (watchOrderFillAmounts orderId ''0'' (pre @ Inr order # rest))
             = fills @ [if status order = ''FAILED'' then Error (OrderFailed orderId)
                        else Done (status order)]"
proof -
  have zero: "decimal ''0''"
    by (simp add: decimal_def Big_eval)
  note pre = watch_keeps_polling [OF assms(2) zero, of orderId "Inr order # rest"]
  from pre have dec: "decimal (last_known ''0'' pre)"
    and pf: "list_all is_Fill (fst (watchOrderFillAmounts orderId ''0'' pre))"
    by simp_all
  from onPoll_terminal [OF assms(1) assms(3) dec, of orderId rest]
  obtain fills where fills: "list_all is_Fill fills"
    and run: "watchOrderFillAmounts orderId (last_known ''0'' pre) (Inr order # rest)
             = (fills @ [if status order = ''FAILED'' then Error (OrderFailed orderId)
                         else Done (status order)],
                [GetBlockOrder orderId], Stopped)"
    by blast
  from pre run have whole: "watchOrderFillAmounts orderId ''0'' (pre @ Inr order # rest)
      = ((fst (watchOrderFillAmounts orderId ''0'' pre) @ fills) @
           [if status order = ''FAILED'' then Error (OrderFailed orderId) else Done (status order)],
         replicate (length pre) (GetBlockOrder orderId) @ [GetBlockOrder orderId], Stopped)"
    by simp
  show "snd (watchOrderFillAmounts orderId ''0'' (pre @ Inr order # rest))
           = (replicate (Suc (length pre)) (GetBlockOrder orderId), Stopped)"
    by (simp add: whole replicate_append_same)
  from pf fills have "list_all is_Fill (fst (watchOrderFillAmounts orderId ''0'' pre) @ fills)"
    by simp
  moreover have "fst (watchOrderFillAmounts orderId ''0'' (pre @ Inr order # rest))
      = (fst (watchOrderFillAmounts orderId ''0'' pre) @ fills) @
        [if status order = ''FAILED'' then Error (OrderFailed orderId) else Done (status order)]"
    by (simp only: whole fst_conv)
  ultimately show "\<exists>fills. list_all is_Fill fills \<and>
           fst (watchOrderFillAmounts orderId ''0'' (pre @ Inr order # rest))
             = fills @ [if status order = ''FAILED'' then Error (OrderFailed orderId)
                        else Done (status order)]"
    by blast
qed

text \<open>
  C2, as the code has it. Let the polls before be answered by orders that keep the watch
  going (a status that is not terminal and, for the streaming form, a decimal fill
  amount), and let the next poll answer with status \<open>FAILED\<close>. The streaming form then
  ends with the \<open>error\<close> notification \<open>OrderFailed orderId\<close>, every event before it being a
  fill, and the blocking form ends by resolving with the string \<open>FAILED\<close>: it returns
  the status and raises nothing. In both forms the requests sent are the polls up to
  this one and no more, whatever the broker would have answered next (\<open>rest\<close>).
\<close>

theorem watch_FAILED:
  assumes "status order = ''FAILED''"
  shows "(list_all keeps_polling pre \<and> decimal (newFillAmount_of order) \<longrightarrow>
            snd (watchOrderFillAmounts orderId ''0'' (pre @ Inr order # rest))
              = (replicate (Suc (length pre)) (GetBlockOrder orderId), Stopped)
          \<and> (\<exists>fills. list_all is_Fill fills \<and>
                fst (watchOrderFillAmounts orderId ''0'' (pre @ Inr order # rest))
                  = fills @ [Error (OrderFailed orderId)]))
       \<and> (list_all pending pre \<longrightarrow>
            watchOrder orderId (pre @ Inr order # rest)
              = (Some (Inr ''FAILED''), replicate (Suc (length pre)) (GetBlockOrder orderId)))"
proof (intro conjI impI)
  assume h: "list_all keeps_polling pre \<and> decimal (newFillAmount_of order)"
  from assms have t: "terminal (status order)"
    by (simp add: terminal_def)
  from h have p: "list_all keeps_polling pre" and d: "decimal (newFillAmount_of order)"
    by simp_all
  show "snd (watchOrderFillAmounts orderId ''0'' (pre @ Inr order # rest))
              = (replicate (Suc (length pre)) (GetBlockOrder orderId), Stopped)"
    by (rule watch_terminal(1) [OF t p d])
  show "\<exists>fills. list_all is_Fill fills \<and>
                fst (watchOrderFillAmounts orderId ''0'' (pre @ Inr order # rest))
                  = fills @ [Error (OrderFailed orderId)]"
    using watch_terminal(2) [OF t p d, of orderId rest] by (simp only: assms refl if_True)
next
  assume "list_all pending pre"
  from watchOrder_pending [OF this, of orderId "Inr order # rest"] assms
  show "watchOrder orderId (pre @ Inr order # rest)
              = (Some (Inr ''FAILED''), replicate (Suc (length pre)) (GetBlockOrder orderId))"
    by (simp add: replicate_append_same)
qed


lemmas sample_eval =
  sample_order_def keeps_polling_def pending_def terminal_def decimal_def newFillAmount_of_def

theorem watch_FAILED_witness:
  "status (sample_order ''FAILED'' (Some ''0.5'')) = ''FAILED''
   \<and> list_all keeps_polling [Inr (sample_order ''ACTIVE'' None)]
   \<and> decimal (newFillAmount_of (sample_order ''FAILED'' (Some ''0.5'')))
   \<and> list_all pending [Inr (sample_order ''ACTIVE'' None)]
   \<and> snd (watchOrderFillAmounts ''order-1'' ''0''
            [Inr (sample_order ''ACTIVE'' None), Inr (sample_order ''FAILED'' (Some ''0.5'')),
             Inr (sample_order ''ACTIVE'' (Some ''0.6''))])
       = ([GetBlockOrder ''order-1'', GetBlockOrder ''order-1''], Stopped)
   \<and> (\<exists>fills. list_all is_Fill fills \<and>
         fst (watchOrderFillAmounts ''order-1'' ''0''
            [Inr (sample_order ''ACTIVE'' None), Inr (sample_order ''FAILED'' (Some ''0.5'')),
             Inr (sample_order ''ACTIVE'' (Some ''0.6''))])
           = fills @ [Error (OrderFailed ''order-1'')])
   \<and> watchOrder ''order-1''
            [Inr (sample_order ''ACTIVE'' None), Inr (sample_order ''FAILED'' (Some ''0.5'')),
             Inr (sample_order ''ACTIVE'' (Some ''0.6''))]
       = (Some (Inr ''FAILED''), [GetBlockOrder ''order-1'', GetBlockOrder ''order-1''])"
proof -
  have s: "status (sample_order ''FAILED'' (Some ''0.5'')) = ''FAILED''"
    by (simp add: sample_order_def)
  have k: "list_all keeps_polling [Inr (sample_order ''ACTIVE'' None)]"
    by (simp add: sample_eval Big_eval)
  have d: "decimal (newFillAmount_of (sample_order ''FAILED'' (Some ''0.5'')))"
    by (simp add: sample_eval Big_eval)
  have p: "list_all pending [Inr (sample_order ''ACTIVE'' None)]"
    by (simp add: sample_eval)
  note w = watch_FAILED [OF s, of "[Inr (sample_order ''ACTIVE'' None)]" "''order-1''"
      "[Inr (sample_order ''ACTIVE'' (Some ''0.6''))]"]
  note streaming = w [THEN conjunct1, THEN mp, OF conjI [OF k d]]
  note blocking = w [THEN conjunct2, THEN mp, OF p]
  from s k d p streaming blocking show ?thesis
    by (simp del: watchOrderFillAmounts.simps watchOrder.simps)
qed

text \<open>
  C2 as stated does not hold for the blocking form: on a \<open>FAILED\<close> order
  \<open>watchOrder\<close> resolves with the status (line 164) instead of failing with
  \<open>OrderFailed\<close>.
\<close>

theorem watchOrder_FAILED_counterexample:
  "watchOrder ''order-1'' [Inr (sample_order ''FAILED'' None)]
     = (Some (Inr ''FAILED''), [GetBlockOrder ''order-1''])
   \<and> fst (watchOrder ''order-1'' [Inr (sample_order ''FAILED'' None)])
     \<noteq> Some (Inl (OrderFailed ''order-1''))"
  by (simp add: sample_order_def)

lemma watch_continues:
  assumes "\<not> terminal (status order)" and "list_all keeps_polling pre"
    and "decimal (newFillAmount_of order)"
  shows "watchOrderFillAmounts orderId ''0'' (pre @ Inr order # rest)
      = (fst (watchOrderFillAmounts orderId ''0'' (pre @ [Inr order])) @
           fst (watchOrderFillAmounts orderId (newFillAmount_of order) rest),
         replicate (Suc (length pre)) (GetBlockOrder orderId) @
           fst (snd (watchOrderFillAmounts orderId (newFillAmount_of order) rest)),
         snd (snd (watchOrderFillAmounts orderId (newFillAmount_of order) rest)))"
    and "snd (watchOrderFillAmounts orderId ''0'' (pre @ [Inr order]))
      = (replicate (Suc (Suc (length pre))) (GetBlockOrder orderId), Running)"
    and "list_all is_Fill (fst (watchOrderFillAmounts orderId ''0'' (pre @ [Inr order])))"
proof -
  have zero: "decimal ''0''"
    by (simp add: decimal_def Big_eval)
  from assms have all: "list_all keeps_polling (pre @ [Inr order])"
    by (simp add: keeps_polling_def)
  have lk: "last_known ''0'' (pre @ [Inr order]) = newFillAmount_of order"
    by (simp add: last_known_append)
  from watch_keeps_polling [OF all zero, of orderId rest]
  show "watchOrderFillAmounts orderId ''0'' (pre @ Inr order # rest)
      = (fst (watchOrderFillAmounts orderId ''0'' (pre @ [Inr order])) @
           fst (watchOrderFillAmounts orderId (newFillAmount_of order) rest),
         replicate (Suc (length pre)) (GetBlockOrder orderId) @
           fst (snd (watchOrderFillAmounts orderId (newFillAmount_of order) rest)),
         snd (snd (watchOrderFillAmounts orderId (newFillAmount_of order) rest)))"
    by (simp add: lk replicate_append_same)
  have "watchOrderFillAmounts orderId ''0'' ((pre @ [Inr order]) @ [])
      = (fst (watchOrderFillAmounts orderId ''0'' (pre @ [Inr order])) @
           fst (watchOrderFillAmounts orderId (last_known ''0'' (pre @ [Inr order])) []),
         replicate (length (pre @ [Inr order])) (GetBlockOrder orderId) @
           fst (snd (watchOrderFillAmounts orderId (last_known ''0'' (pre @ [Inr order])) [])),
         snd (snd (watchOrderFillAmounts orderId (last_known ''0'' (pre @ [Inr order])) [])))"
    using watch_keeps_polling [OF all zero, of orderId "[]"] by (rule conjunct1)
  then have "snd (watchOrderFillAmounts orderId ''0'' ((pre @ [Inr order]) @ []))
      = snd (fst (watchOrderFillAmounts orderId ''0'' (pre @ [Inr order])) @
           fst (watchOrderFillAmounts orderId (last_known ''0'' (pre @ [Inr order])) []),
         replicate (length (pre @ [Inr order])) (GetBlockOrder orderId) @
           fst (snd (watchOrderFillAmounts orderId (last_known ''0'' (pre @ [Inr order])) [])),
         snd (snd (watchOrderFillAmounts orderId (last_known ''0'' (pre @ [Inr order])) [])))"
    by (rule arg_cong)
  then show "snd (watchOrderFillAmounts orderId ''0'' (pre @ [Inr order]))
      = (replicate (Suc (Suc (length pre))) (GetBlockOrder orderId), Running)"
    by (simp add: replicate_append_same)
  from watch_keeps_polling [OF all zero, of orderId "[]"]
  show "list_all is_Fill (fst (watchOrderFillAmounts orderId ''0'' (pre @ [Inr order])))"
    by simp
qed

text \<open>
  C4. After polls that keep the watch going, a poll answering \<open>COMPLETE\<close> or
  \<open>CANCELLED\<close> ends the watch with that status (the \<open>done\<close> notification of the
  streaming form, the value the blocking form resolves with), and the requests sent are
  the polls up to this one and no more. A poll answering any status that is not terminal,
  known to the client or not, ends nothing: the run is the run on the answers so far,
  which emits fill events only, followed by the run on the later answers with this
  poll's fill amount as the baseline, and that run starts by sending a new request. (The
  third terminal status, \<open>FAILED\<close>, is C2.)
\<close>

theorem watch_COMPLETE_CANCELLED:
  "(status order = ''COMPLETE'' \<or> status order = ''CANCELLED'' \<longrightarrow>
      (list_all keeps_polling pre \<and> decimal (newFillAmount_of order) \<longrightarrow>
         snd (watchOrderFillAmounts orderId ''0'' (pre @ Inr order # rest))
           = (replicate (Suc (length pre)) (GetBlockOrder orderId), Stopped)
       \<and> (\<exists>fills. list_all is_Fill fills \<and>
             fst (watchOrderFillAmounts orderId ''0'' (pre @ Inr order # rest))
               = fills @ [Done (status order)]))
    \<and> (list_all pending pre \<longrightarrow>
         watchOrder orderId (pre @ Inr order # rest)
           = (Some (Inr (status order)), replicate (Suc (length pre)) (GetBlockOrder orderId))))
   \<and> (\<not> terminal (status order) \<longrightarrow>
      (list_all keeps_polling pre \<and> decimal (newFillAmount_of order) \<longrightarrow>
         watchOrderFillAmounts orderId ''0'' (pre @ Inr order # rest)
           = (fst (watchOrderFillAmounts orderId ''0'' (pre @ [Inr order])) @
                fst (watchOrderFillAmounts orderId (newFillAmount_of order) rest),
              replicate (Suc (length pre)) (GetBlockOrder orderId) @
                fst (snd (watchOrderFillAmounts orderId (newFillAmount_of order) rest)),
              snd (snd (watchOrderFillAmounts orderId (newFillAmount_of order) rest)))
       \<and> take 1 (fst (snd (watchOrderFillAmounts orderId (newFillAmount_of order) rest)))
           = [GetBlockOrder orderId]
       \<and> snd (watchOrderFillAmounts orderId ''0'' (pre @ [Inr order]))
           = (replicate (Suc (Suc (length pre))) (GetBlockOrder orderId), Running)
       \<and> list_all is_Fill (fst (watchOrderFillAmounts orderId ''0'' (pre @ [Inr order]))))
    \<and> (list_all pending pre \<longrightarrow>
         watchOrder orderId (pre @ Inr order # rest)
           = (fst (watchOrder orderId rest),
              replicate (Suc (length pre)) (GetBlockOrder orderId) @ snd (watchOrder orderId rest))
       \<and> take 1 (snd (watchOrder orderId rest)) = [GetBlockOrder orderId]))"
proof (intro conjI impI)
  assume st: "status order = ''COMPLETE'' \<or> status order = ''CANCELLED''"
    and h: "list_all keeps_polling pre \<and> decimal (newFillAmount_of order)"
  from st have t: "terminal (status order)" and nf: "status order \<noteq> ''FAILED''"
    by (auto simp add: terminal_def)
  from h have p: "list_all keeps_polling pre" and d: "decimal (newFillAmount_of order)"
    by simp_all
  show "snd (watchOrderFillAmounts orderId ''0'' (pre @ Inr order # rest))
           = (replicate (Suc (length pre)) (GetBlockOrder orderId), Stopped)"
    by (rule watch_terminal(1) [OF t p d])
  show "\<exists>fills. list_all is_Fill fills \<and>
             fst (watchOrderFillAmounts orderId ''0'' (pre @ Inr order # rest))
               = fills @ [Done (status order)]"
    using watch_terminal(2) [OF t p d, of orderId rest] nf by (simp only: if_False)
next
  assume st: "status order = ''COMPLETE'' \<or> status order = ''CANCELLED''"
    and p: "list_all pending pre"
  from st watchOrder_pending [OF p, of orderId "Inr order # rest"]
  show "watchOrder orderId (pre @ Inr order # rest)
           = (Some (Inr (status order)), replicate (Suc (length pre)) (GetBlockOrder orderId))"
    by (auto simp add: replicate_append_same)
next
  assume nt: "\<not> terminal (status order)"
    and h: "list_all keeps_polling pre \<and> decimal (newFillAmount_of order)"
  from h have p: "list_all keeps_polling pre" and d: "decimal (newFillAmount_of order)"
    by simp_all
  show "watchOrderFillAmounts orderId ''0'' (pre @ Inr order # rest)
           = (fst (watchOrderFillAmounts orderId ''0'' (pre @ [Inr order])) @
                fst (watchOrderFillAmounts orderId (newFillAmount_of order) rest),
              replicate (Suc (length pre)) (GetBlockOrder orderId) @
                fst (snd (watchOrderFillAmounts orderId (newFillAmount_of order) rest)),
              snd (snd (watchOrderFillAmounts orderId (newFillAmount_of order) rest)))"
    by (rule watch_continues(1) [OF nt p d])
  show "take 1 (fst (snd (watchOrderFillAmounts orderId (newFillAmount_of order) rest)))
           = [GetBlockOrder orderId]"
    by (rule watch_first_request)
  show "snd (watchOrderFillAmounts orderId ''0'' (pre @ [Inr order]))
           = (replicate (Suc (Suc (length pre))) (GetBlockOrder orderId), Running)"
    by (rule watch_continues(2) [OF nt p d])
  show "list_all is_Fill (fst (watchOrderFillAmounts orderId ''0'' (pre @ [Inr order])))"
    by (rule watch_continues(3) [OF nt p d])
next
  assume nt: "\<not> terminal (status order)" and p: "list_all pending pre"
  from nt have "pending (Inr order)"
    by (simp add: pending_def)
  with p have "list_all pending (pre @ [Inr order])"
    by simp
  from watchOrder_pending [OF this, of orderId rest]
  show "watchOrder orderId (pre @ Inr order # rest)
           = (fst (watchOrder orderId rest),
              replicate (Suc (length pre)) (GetBlockOrder orderId) @ snd (watchOrder orderId rest))"
    by (simp add: replicate_append_same)
  show "take 1 (snd (watchOrder orderId rest)) = [GetBlockOrder orderId]"
    by (rule watchOrder_first_request)
qed


theorem watch_COMPLETE_CANCELLED_witness:
  "list_all keeps_polling [Inr (sample_order ''ACTIVE'' (Some ''0.25''))]
   \<and> list_all pending [Inr (sample_order ''ACTIVE'' (Some ''0.25''))]
   \<and> decimal (newFillAmount_of (sample_order ''COMPLETE'' (Some ''1'')))
   \<and> snd (watchOrderFillAmounts ''order-1'' ''0''
            [Inr (sample_order ''ACTIVE'' (Some ''0.25'')), Inr (sample_order ''COMPLETE'' (Some ''1'')),
             Inr (sample_order ''ACTIVE'' (Some ''1''))])
       = ([GetBlockOrder ''order-1'', GetBlockOrder ''order-1''], Stopped)
   \<and> (\<exists>fills. list_all is_Fill fills \<and>
         fst (watchOrderFillAmounts ''order-1'' ''0''
            [Inr (sample_order ''ACTIVE'' (Some ''0.25'')), Inr (sample_order ''COMPLETE'' (Some ''1'')),
             Inr (sample_order ''ACTIVE'' (Some ''1''))])
           = fills @ [Done ''COMPLETE''])
   \<and> watchOrder ''order-1''
            [Inr (sample_order ''ACTIVE'' (Some ''0.25'')), Inr (sample_order ''CANCELLED'' (Some ''1'')),
             Inr (sample_order ''ACTIVE'' (Some ''1''))]
       = (Some (Inr ''CANCELLED''), [GetBlockOrder ''order-1'', GetBlockOrder ''order-1''])
   \<and> \<not> terminal (status (sample_order ''PARTIAL'' (Some ''1'')))
   \<and> snd (watchOrderFillAmounts ''order-1'' ''0''
            [Inr (sample_order ''ACTIVE'' (Some ''0.25'')), Inr (sample_order ''PARTIAL'' (Some ''1''))])
       = ([GetBlockOrder ''order-1'', GetBlockOrder ''order-1'', GetBlockOrder ''order-1''], Running)
   \<and> watchOrder ''order-1''
            [Inr (sample_order ''ACTIVE'' (Some ''0.25'')), Inr (sample_order ''PARTIAL'' (Some ''1''))]
       = (None, [GetBlockOrder ''order-1'', GetBlockOrder ''order-1'', GetBlockOrder ''order-1''])"
proof -
  have k: "list_all keeps_polling [Inr (sample_order ''ACTIVE'' (Some ''0.25''))]"
    by (simp add: sample_eval Big_eval)
  have p: "list_all pending [Inr (sample_order ''ACTIVE'' (Some ''0.25''))]"
    by (simp add: sample_eval)
  have d: "decimal (newFillAmount_of (sample_order st (Some ''1'')))" for st
    by (simp add: sample_eval Big_eval)
  have c1: "status (sample_order ''COMPLETE'' (Some ''1'')) = ''COMPLETE''
            \<or> status (sample_order ''COMPLETE'' (Some ''1'')) = ''CANCELLED''"
    by (simp add: sample_order_def)
  have c2: "status (sample_order ''CANCELLED'' (Some ''1'')) = ''COMPLETE''
            \<or> status (sample_order ''CANCELLED'' (Some ''1'')) = ''CANCELLED''"
    by (simp add: sample_order_def)
  have nt: "\<not> terminal (status (sample_order ''PARTIAL'' (Some ''1'')))"
    by (simp add: sample_eval)
  note complete = watch_COMPLETE_CANCELLED
      [of "sample_order ''COMPLETE'' (Some ''1'')" "[Inr (sample_order ''ACTIVE'' (Some ''0.25''))]"
          "''order-1''" "[Inr (sample_order ''ACTIVE'' (Some ''1''))]",
       THEN conjunct1, THEN mp, OF c1, THEN conjunct1, THEN mp, OF conjI [OF k d]]
  note cancelled = watch_COMPLETE_CANCELLED
      [of "sample_order ''CANCELLED'' (Some ''1'')" "[Inr (sample_order ''ACTIVE'' (Some ''0.25''))]"
          "''order-1''" "[Inr (sample_order ''ACTIVE'' (Some ''1''))]",
       THEN conjunct1, THEN mp, OF c2, THEN conjunct2, THEN mp, OF p]
  note streaming = watch_COMPLETE_CANCELLED
      [of "sample_order ''PARTIAL'' (Some ''1'')" "[Inr (sample_order ''ACTIVE'' (Some ''0.25''))]"
          "''order-1''" "[]",
       THEN conjunct2, THEN mp, OF nt, THEN conjunct1, THEN mp, OF conjI [OF k d]]
  note blocking = watch_COMPLETE_CANCELLED
      [of "sample_order ''PARTIAL'' (Some ''1'')" "[Inr (sample_order ''ACTIVE'' (Some ''0.25''))]"
          "''order-1''" "[]",
       THEN conjunct2, THEN mp, OF nt, THEN conjunct2, THEN mp, OF p]
  have st: "status (sample_order x y) = x" for x y
    by (simp add: sample_order_def)
  from complete have a: "snd (watchOrderFillAmounts ''order-1'' ''0''
            [Inr (sample_order ''ACTIVE'' (Some ''0.25'')), Inr (sample_order ''COMPLETE'' (Some ''1'')),
             Inr (sample_order ''ACTIVE'' (Some ''1''))])
       = ([GetBlockOrder ''order-1'', GetBlockOrder ''order-1''], Stopped)
   \<and> (\<exists>fills. list_all is_Fill fills \<and>
         fst (watchOrderFillAmounts ''order-1'' ''0''
            [Inr (sample_order ''ACTIVE'' (Some ''0.25'')), Inr (sample_order ''COMPLETE'' (Some ''1'')),
             Inr (sample_order ''ACTIVE'' (Some ''1''))])
           = fills @ [Done ''COMPLETE''])"
    by (simp add: st del: watchOrderFillAmounts.simps)
  from cancelled have b: "watchOrder ''order-1''
            [Inr (sample_order ''ACTIVE'' (Some ''0.25'')), Inr (sample_order ''CANCELLED'' (Some ''1'')),
             Inr (sample_order ''ACTIVE'' (Some ''1''))]
       = (Some (Inr ''CANCELLED''), [GetBlockOrder ''order-1'', GetBlockOrder ''order-1''])"
    by (simp add: st del: watchOrder.simps)
  from streaming have c: "snd (watchOrderFillAmounts ''order-1'' ''0''
            [Inr (sample_order ''ACTIVE'' (Some ''0.25'')), Inr (sample_order ''PARTIAL'' (Some ''1''))])
       = ([GetBlockOrder ''order-1'', GetBlockOrder ''order-1'', GetBlockOrder ''order-1''], Running)"
    by (simp del: watchOrderFillAmounts.simps(2))
  from blocking have e: "watchOrder ''order-1''
            [Inr (sample_order ''ACTIVE'' (Some ''0.25'')), Inr (sample_order ''PARTIAL'' (Some ''1''))]
       = (None, [GetBlockOrder ''order-1'', GetBlockOrder ''order-1'', GetBlockOrder ''order-1''])"
    by (simp del: watchOrder.simps(2,3))
  from k p d [of "''COMPLETE''"] nt a b c e show ?thesis
    by - (intro conjI; (elim conjE)?; assumption)
qed

text \<open>
  C8. A poll that answers with a terminal status and a fill amount strictly above the
  last-known one emits two events, in this order: the fill event of the delta, then the
  notification of the end (\<open>error\<close> for \<open>FAILED\<close>, \<open>done\<close> otherwise). Nothing is sent
  after it.
\<close>

theorem terminal_poll_fill_first:
  assumes "terminal (status order)"
    and "Big_parse (newFillAmount_of order) = Some n"
    and "Big_parse lastFillAmount = Some f"
    and "Big_val f < Big_val n"
  shows "watchOrderFillAmounts orderId lastFillAmount (Inr order # rest)
     = ([Fill (Big_toFixed 8 (Big_minus n f)) (limitPrice order),
         if status order = ''FAILED'' then Error (OrderFailed orderId) else Done (status order)],
        [GetBlockOrder orderId], Stopped)"
  using assms(1,4) by (simp add: onPoll_order [OF assms(2,3)])

theorem terminal_poll_fill_first_witness:
  "terminal (status (sample_order ''FAILED'' (Some ''0.7'')))
   \<and> Big_parse (newFillAmount_of (sample_order ''FAILED'' (Some ''0.7''))) = Some (Big 7 1)
   \<and> Big_parse ''0.3'' = Some (Big 3 1)
   \<and> Big_val (Big 3 1) < Big_val (Big 7 1)
   \<and> watchOrderFillAmounts ''order-1'' ''0.3''
        [Inr (sample_order ''FAILED'' (Some ''0.7'')), Inr (sample_order ''ACTIVE'' (Some ''0.9''))]
      = ([Fill ''0.40000000'' ''9000'', Error (OrderFailed ''order-1'')],
         [GetBlockOrder ''order-1''], Stopped)"
proof -
  have t: "terminal (status (sample_order ''FAILED'' (Some ''0.7'')))"
    by (simp add: sample_eval)
  have n: "Big_parse (newFillAmount_of (sample_order ''FAILED'' (Some ''0.7''))) = Some (Big 7 1)"
    by (simp add: sample_eval Big_eval)
  have f: "Big_parse ''0.3'' = Some (Big 3 1)"
    by (simp add: Big_eval)
  have lt: "Big_val (Big 3 1) < Big_val (Big 7 1)"
    by (simp add: Big_val_def)
  have amount: "Big_toFixed 8 (Big_minus (Big 7 1) (Big 3 1)) = ''0.40000000''"
    by (simp add: Big_eval)
  have rest: "limitPrice (sample_order ''FAILED'' (Some ''0.7'')) = ''9000''"
    "status (sample_order ''FAILED'' (Some ''0.7'')) = ''FAILED''"
    by (simp_all add: sample_order_def)
  from terminal_poll_fill_first [OF t n f lt, of "''order-1''"
      "[Inr (sample_order ''ACTIVE'' (Some ''0.9''))]"]
  have "watchOrderFillAmounts ''order-1'' ''0.3''
        [Inr (sample_order ''FAILED'' (Some ''0.7'')), Inr (sample_order ''ACTIVE'' (Some ''0.9''))]
      = ([Fill ''0.40000000'' ''9000'', Error (OrderFailed ''order-1'')],
         [GetBlockOrder ''order-1''], Stopped)"
    by (simp only: amount rest refl if_True)
  with t n f lt show ?thesis
    by - (intro conjI; (elim conjE)?; assumption)
qed

section \<open>What the decimal operations compute\<close>

lemma div_half_up:
  fixes n d :: int
  assumes "0 < d" and "0 \<le> n"
  shows "(2 * n + d) div (2 * d) = (if d \<le> 2 * (n mod d) then n div d + 1 else n div d)"
proof -
  let ?q = "n div d" and ?r = "n mod d"
  have n: "n = d * ?q + ?r"
    by simp
  have r: "0 \<le> ?r" "?r < d"
    using assms(1) by simp_all
  have "2 * n + d = 2 * (d * ?q + ?r) + d"
    by simp
  then have e: "2 * n + d = (2 * d) * ?q + (2 * ?r + d)"
    by (simp only: algebra_simps)
  show ?thesis
  proof (cases "d \<le> 2 * ?r")
    case True
    have "2 * n + d = (2 * d) * (?q + 1) + (2 * ?r - d)"
      using e by (simp only: algebra_simps)
    moreover have "0 \<le> 2 * ?r - d" "2 * ?r - d < 2 * d"
      using True r by simp_all
    ultimately have "(2 * n + d) div (2 * d) = ?q + 1"
      by (rule int_div_pos_eq)
    with True show ?thesis by simp
  next
    case False
    have "0 \<le> 2 * ?r + d" "2 * ?r + d < 2 * d"
      using False r by simp_all
    with e have "(2 * n + d) div (2 * d) = ?q"
      by (rule int_div_pos_eq)
    with False show ?thesis by simp
  qed
qed

lemma floor_half_up:
  fixes n d :: int
  assumes "0 < d" and "0 \<le> n"
  shows "\<lfloor>(of_int n :: rat) / of_int d + 1 / 2\<rfloor>
           = (if d \<le> 2 * (n mod d) then n div d + 1 else n div d)"
proof -
  have "(of_int n :: rat) / of_int d + 1 / 2 = of_int (2 * n + d) / of_int (2 * d)"
    using assms(1) by (simp add: field_simps)
  then have "\<lfloor>(of_int n :: rat) / of_int d + 1 / 2\<rfloor> = (2 * n + d) div (2 * d)"
    by (simp only: floor_divide_of_int_eq)
  with div_half_up [OF assms] show ?thesis
    by simp
qed


lemma sgn_rat_of_int: "sgn (of_int m :: rat) = of_int (sgn m)"
  by (simp add: sgn_if)

lemma half_up_ratio:
  fixes m d :: int
  assumes "0 < d"
  shows "half_up dp (of_int m / (of_int d * 10 ^ dp))
           = of_int (sgn m * (if d \<le> 2 * (\<bar>m\<bar> mod d) then \<bar>m\<bar> div d + 1 else \<bar>m\<bar> div d))
             / 10 ^ dp"
proof -
  let ?v = "of_int m / (of_int d * 10 ^ dp) :: rat"
  have pos: "(0::rat) < of_int d * 10 ^ dp"
    using assms by simp
  have a: "\<bar>?v\<bar> * 10 ^ dp = of_int \<bar>m\<bar> / of_int d"
    using assms by (simp add: abs_mult)
  have s: "sgn ?v = of_int (sgn m)"
    using assms by (simp add: sgn_divide sgn_mult sgn_rat_of_int)
  have "half_up dp ?v = of_int (sgn m) * of_int \<lfloor>(of_int \<bar>m\<bar> :: rat) / of_int d + 1 / 2\<rfloor> / 10 ^ dp"
    by (simp only: half_up_def a s)
  also have "\<lfloor>(of_int \<bar>m\<bar> :: rat) / of_int d + 1 / 2\<rfloor>
      = (if d \<le> 2 * (\<bar>m\<bar> mod d) then \<bar>m\<bar> div d + 1 else \<bar>m\<bar> div d)"
    by (rule floor_half_up [OF assms]) simp
  finally show ?thesis
    by (simp only: of_int_mult)
qed

lemma half_up_exact:
  "half_up dp (of_int m / 10 ^ s) = of_int m / 10 ^ s" if "s \<le> dp"
proof -
  let ?v = "of_int m / 10 ^ s :: rat"
  from that obtain k where dp: "dp = s + k"
    using le_Suc_ex by blast
  have "\<bar>?v\<bar> * 10 ^ dp = of_int (\<bar>m\<bar> * 10 ^ k)"
    by (simp add: dp power_add abs_mult)
  then have "\<lfloor>\<bar>?v\<bar> * 10 ^ dp + 1 / 2\<rfloor> = \<lfloor>(of_int (\<bar>m\<bar> * 10 ^ k) :: rat) + 1 / 2\<rfloor>"
    by (simp only:)
  also have "\<dots> = \<bar>m\<bar> * 10 ^ k"
    by (rule floor_unique) simp_all
  finally have "\<lfloor>\<bar>?v\<bar> * 10 ^ dp + 1 / 2\<rfloor> = \<bar>m\<bar> * 10 ^ k" .
  moreover have "sgn ?v = of_int (sgn m)"
    by (simp add: sgn_divide sgn_rat_of_int)
  ultimately have "half_up dp ?v = of_int (sgn m) * of_int (\<bar>m\<bar> * 10 ^ k) / 10 ^ dp"
    by (simp only: half_up_def)
  also have "\<dots> = of_int (sgn m * \<bar>m\<bar>) * 10 ^ k / 10 ^ dp"
    by (simp only: of_int_mult of_int_power of_int_numeral mult.assoc)
  also have "\<dots> = of_int m * 10 ^ k / 10 ^ dp"
    by (simp only: sgn_mult_abs)
  also have "\<dots> = ?v"
    by (simp add: dp power_add)
  finally show ?thesis .
qed

lemma Big_val_round: "Big_val (Big_round dp x) = half_up dp (Big_val x)"
proof (cases "scale x \<le> dp")
  case True
  then show ?thesis
    by (simp add: Big_round_def Big_val_def half_up_exact)
next
  case False
  then obtain k where s: "scale x = k + dp"
    by (metis add.commute le_Suc_ex nat_le_linear)
  have "Big_val x = of_int (coef x) / (of_int (10 ^ k) * 10 ^ dp)"
    by (simp add: Big_val_def s power_add)
  moreover have p: "0 < (10::int) ^ k"
    by simp
  ultimately have "half_up dp (Big_val x)
      = of_int (sgn (coef x) *
          (if 10 ^ k \<le> 2 * (\<bar>coef x\<bar> mod 10 ^ k) then \<bar>coef x\<bar> div 10 ^ k + 1
           else \<bar>coef x\<bar> div 10 ^ k)) / 10 ^ dp"
    by (simp only: half_up_ratio [OF p])
  with False show ?thesis
    by (simp add: Big_round_def Big_val_def s Let_def)
qed

lemma Big_val_times: "Big_val (Big_times x y) = Big_val x * Big_val y"
  by (simp add: Big_times_def Big_val_def power_add)

lemma Big_val_minus: "Big_val (Big_minus x y) = Big_val x - Big_val y"
proof -
  let ?s = "max (scale x) (scale y)"
  have x: "(10::rat) ^ ?s = 10 ^ (?s - scale x) * 10 ^ scale x"
    by (simp flip: power_add)
  have y: "(10::rat) ^ ?s = 10 ^ (?s - scale y) * 10 ^ scale y"
    by (simp flip: power_add)
  have "Big_val (Big_minus x y)
      = of_int (coef x) * 10 ^ (?s - scale x) / 10 ^ ?s
        - of_int (coef y) * 10 ^ (?s - scale y) / 10 ^ ?s"
    by (simp add: Big_minus_def Big_val_def Let_def diff_divide_distrib)
  also have "of_int (coef x) * 10 ^ (?s - scale x) / 10 ^ ?s = Big_val x"
    by (subst x) (simp add: Big_val_def)
  also have "of_int (coef y) * 10 ^ (?s - scale y) / 10 ^ ?s = Big_val y"
    by (subst y) (simp add: Big_val_def)
  finally show ?thesis .
qed

lemma Big_val_div:
  assumes "Big_div x y = Inr q"
  shows "Big_val q = half_up 20 (Big_val x / Big_val y)"
proof -
  from assms have nz: "coef y \<noteq> 0"
    by (auto simp add: Big_div_def split: if_splits)
  let ?m = "coef x * 10 ^ (scale y + 20) * sgn (coef y)"
  let ?d = "\<bar>coef y\<bar> * 10 ^ scale x"
  have d: "0 < ?d"
    using nz by simp
  have "(of_int (coef y) :: rat) = of_int (sgn (coef y) * \<bar>coef y\<bar>)"
    by (simp only: sgn_mult_abs)
  then have cy: "(of_int (coef y) :: rat) = of_int (sgn (coef y)) * of_int \<bar>coef y\<bar>"
    by (simp only: of_int_mult)
  have "sgn (coef y) * sgn (coef y) = 1"
    using nz by (simp add: sgn_if)
  then have "(of_int (sgn (coef y) * sgn (coef y)) :: rat) = 1"
    by simp
  then have s2: "(of_int (sgn (coef y)) :: rat) * of_int (sgn (coef y)) = 1"
    by (simp only: of_int_mult)
  have "Big_val x / Big_val y
      = of_int (coef x) * 10 ^ scale y / (of_int (coef y) * 10 ^ scale x)"
    by (simp add: Big_val_def)
  also have "\<dots> = of_int (coef x) * 10 ^ scale y * of_int (sgn (coef y))
                   / (of_int \<bar>coef y\<bar> * 10 ^ scale x)"
  proof (cases "0 < coef y")
    case True
    then show ?thesis by simp
  next
    case False
    with nz have "coef y < 0" by simp
    then have "(of_int (sgn (coef y)) :: rat) = - 1" and "(of_int \<bar>coef y\<bar> :: rat) = - of_int (coef y)"
      by simp_all
    then show ?thesis
      by (simp only: mult_minus_left mult_minus_right minus_divide_divide mult_1_right)
  qed
  also have "\<dots> = of_int ?m / (of_int ?d * 10 ^ 20)"
    by (simp add: power_add)
  finally have v: "Big_val x / Big_val y = of_int ?m / (of_int ?d * 10 ^ 20)" .
  have am: "\<bar>?m\<bar> = \<bar>coef x\<bar> * 10 ^ (scale y + 20)"
    using nz by (simp add: abs_mult)
  have sm: "sgn ?m = sgn (coef x) * sgn (coef y)"
    by (simp add: sgn_mult)
  have "half_up 20 (Big_val x / Big_val y)
      = of_int (sgn ?m * (if ?d \<le> 2 * (\<bar>?m\<bar> mod ?d) then \<bar>?m\<bar> div ?d + 1 else \<bar>?m\<bar> div ?d))
        / 10 ^ 20"
    by (simp only: v half_up_ratio [OF d])
  also have "\<dots> = Big_val q"
    using assms nz by (simp only: am sm) (auto simp add: Big_div_def Big_DP_def Big_val_def Let_def)
  finally show ?thesis
    by simp
qed

section \<open>Printing and reading back\<close>

lemma digit_cases:
  "d < 10 \<Longrightarrow> d = 0 \<or> d = 1 \<or> d = 2 \<or> d = 3 \<or> d = 4 \<or> d = 5 \<or> d = 6 \<or> d = 7 \<or> d = 8 \<or> d = (9::nat)"
  by arith

lemma digit_char_digit: "d < 10 \<Longrightarrow> is_digit (digit_char d)"
  using digit_cases [of d] by (auto simp add: is_digit_def digit_char_def)

lemma digit_val_char: "d < 10 \<Longrightarrow> digit_val (digit_char d) = d"
  using digit_cases [of d] by (auto simp add: digit_val_def digit_char_def)

lemma digits_nonempty: "digits n \<noteq> []"
  by (cases "n < 10") (simp_all add: digits_small digits_large)

lemma digits_all: "list_all is_digit (digits n)"
proof (induction n rule: digits.induct)
  case (1 n)
  show ?case
  proof (cases "n < 10")
    case True
    then show ?thesis by (simp add: digits_small digit_char_digit)
  next
    case False
    with 1 have "list_all is_digit (digits (n div 10))" by simp
    with False show ?thesis by (simp add: digits_large digit_char_digit)
  qed
qed

lemma nat_of_digits_snoc: "nat_of_digits (ds @ [c]) = 10 * nat_of_digits ds + digit_val c"
  by (simp add: nat_of_digits_def)

lemma nat_of_digits_digits: "nat_of_digits (digits n) = n"
proof (induction n rule: digits.induct)
  case (1 n)
  show ?case
  proof (cases "n < 10")
    case True
    then show ?thesis by (simp add: digits_small nat_of_digits_def digit_val_char)
  next
    case False
    with 1 have "nat_of_digits (digits (n div 10)) = n div 10" by simp
    with False show ?thesis by (simp add: digits_large nat_of_digits_snoc digit_val_char)
  qed
qed

lemma length_digits: "0 < k \<Longrightarrow> n < 10 ^ k \<Longrightarrow> length (digits n) \<le> k"
proof (induction k arbitrary: n)
  case 0
  then show ?case by simp
next
  case (Suc k)
  show ?case
  proof (cases "n < 10")
    case True
    then show ?thesis by (simp add: digits_small)
  next
    case False
    with Suc.prems have k: "0 < k"
      by (cases k) simp_all
    from Suc.prems have "n div 10 < 10 ^ k"
      by (simp add: less_mult_imp_div_less mult.commute)
    with Suc.IH k have "length (digits (n div 10)) \<le> k" by simp
    with False show ?thesis by (simp add: digits_large)
  qed
qed

lemma nat_of_digits_append:
  "nat_of_digits (a @ b) = nat_of_digits a * 10 ^ length b + nat_of_digits b"
proof (induction b rule: rev_induct)
  case Nil
  then show ?case by (simp add: nat_of_digits_def)
next
  case (snoc c b)
  have "nat_of_digits (a @ b @ [c]) = 10 * nat_of_digits (a @ b) + digit_val c"
    using nat_of_digits_snoc [of "a @ b" c] by simp
  with snoc show ?case
    by (simp add: nat_of_digits_snoc algebra_simps)
qed

lemma nat_of_digits_zeros: "nat_of_digits (replicate k (CHR ''0'')) = 0"
  by (induction k) (simp_all add: nat_of_digits_def digit_val_def)

lemma nat_of_digits_pad: "nat_of_digits (pad_zeros w s) = nat_of_digits s"
  by (simp add: pad_zeros_def nat_of_digits_append nat_of_digits_zeros)

lemma pad_zeros_all: "list_all is_digit s \<Longrightarrow> list_all is_digit (pad_zeros w s)"
  by (auto simp add: pad_zeros_def list_all_iff is_digit_def)

lemma length_pad_zeros: "length s \<le> w \<Longrightarrow> length (pad_zeros w s) = w"
  by (simp add: pad_zeros_def)

lemma takeWhile_digits:
  "list_all is_digit ds \<Longrightarrow> \<not> is_digit c \<Longrightarrow> takeWhile is_digit (ds @ c # r) = ds"
  by (induction ds) simp_all

lemma dropWhile_digits:
  "list_all is_digit ds \<Longrightarrow> \<not> is_digit c \<Longrightarrow> dropWhile is_digit (ds @ c # r) = c # r"
  by (induction ds) simp_all

lemma takeWhile_all_digits: "list_all is_digit ds \<Longrightarrow> takeWhile is_digit ds = ds"
  by (induction ds) simp_all

lemma dropWhile_all_digits: "list_all is_digit ds \<Longrightarrow> dropWhile is_digit ds = []"
  by (induction ds) simp_all

lemma not_digit: "\<not> is_digit (CHR ''.'')" "\<not> is_digit (CHR ''-'')"
  by (simp_all add: is_digit_def)

lemma hd_digits_not_minus: "ip \<noteq> [] \<Longrightarrow> list_all is_digit ip \<Longrightarrow> hd (ip @ r) \<noteq> CHR ''-''"
  by (cases ip) (auto simp add: is_digit_def)

lemma Big_parse_fixed:
  assumes "ip \<noteq> []" and "list_all is_digit ip" and "list_all is_digit fp"
  shows "Big_parse ((if neg then ''-'' else []) @ ip @ CHR ''.'' # fp)
       = Some (Big (if neg then - int (nat_of_digits (ip @ fp)) else int (nat_of_digits (ip @ fp)))
                 (length fp))"
proof -
  let ?s = "(if neg then ''-'' else []) @ ip @ CHR ''.'' # fp"
  have neg: "(?s \<noteq> [] \<and> hd ?s = CHR ''-'') = neg"
    using hd_digits_not_minus [OF assms(1,2), of "CHR ''.'' # fp"] by simp
  have s1: "(if neg then tl ?s else ?s) = ip @ CHR ''.'' # fp"
    by simp
  have ip: "takeWhile is_digit (ip @ CHR ''.'' # fp) = ip"
    by (rule takeWhile_digits [OF assms(2) not_digit(1)])
  have r1: "dropWhile is_digit (ip @ CHR ''.'' # fp) = CHR ''.'' # fp"
    by (rule dropWhile_digits [OF assms(2) not_digit(1)])
  show ?thesis
    unfolding Big_parse_def neg s1 Let_def ip r1
    using assms(1) by (simp add: takeWhile_all_digits [OF assms(3)]
        dropWhile_all_digits [OF assms(3)] parse_exponent_def)
qed

lemma fixed_format_fixed:
  assumes "ip \<noteq> []" and "list_all is_digit ip" and "list_all is_digit fp"
  shows "fixed_format (length fp) ((if neg then ''-'' else []) @ ip @ CHR ''.'' # fp)"
proof -
  let ?s = "(if neg then ''-'' else []) @ ip @ CHR ''.'' # fp"
  have neg: "(?s \<noteq> [] \<and> hd ?s = CHR ''-'') = neg"
    using hd_digits_not_minus [OF assms(1,2), of "CHR ''.'' # fp"] by simp
  have s1: "(if neg then tl ?s else ?s) = ip @ CHR ''.'' # fp"
    by simp
  have ip: "takeWhile is_digit (ip @ CHR ''.'' # fp) = ip"
    by (rule takeWhile_digits [OF assms(2) not_digit(1)])
  have r1: "dropWhile is_digit (ip @ CHR ''.'' # fp) = CHR ''.'' # fp"
    by (rule dropWhile_digits [OF assms(2) not_digit(1)])
  show ?thesis
    unfolding fixed_format_def neg s1 Let_def ip r1
    using assms by simp
qed


lemma Big_round_scale: "scale (Big_round dp x) \<le> dp"
  by (simp add: Big_round_def Let_def)

lemma Big_round_coef: "\<exists>q\<ge>0. coef (Big_round dp x) = sgn (coef x) * q"
proof (cases "scale x \<le> dp")
  case True
  have "0 \<le> \<bar>coef x\<bar> \<and> coef x = sgn (coef x) * \<bar>coef x\<bar>"
    by (simp add: sgn_mult_abs)
  then have "\<exists>q\<ge>0. coef x = sgn (coef x) * q"
    by (rule exI)
  with True show ?thesis
    by (simp add: Big_round_def)
next
  case False
  let ?d = "(10::int) ^ (scale x - dp)"
  let ?q = "if ?d \<le> 2 * (\<bar>coef x\<bar> mod ?d) then \<bar>coef x\<bar> div ?d + 1 else \<bar>coef x\<bar> div ?d"
  have "0 \<le> \<bar>coef x\<bar> div ?d"
    by (simp add: pos_imp_zdiv_nonneg_iff)
  then have "0 \<le> ?q"
    by simp
  moreover from False have "coef (Big_round dp x) = sgn (coef x) * ?q"
    by (simp add: Big_round_def Let_def)
  ultimately show ?thesis
    by blast
qed

lemma Big_round_sign:
  "coef x < 0 \<Longrightarrow> coef (Big_round dp x) \<le> 0"
  "0 \<le> coef x \<Longrightarrow> 0 \<le> coef (Big_round dp x)"
proof -
  from Big_round_coef [of dp x] obtain q where q: "0 \<le> q"
    and c: "coef (Big_round dp x) = sgn (coef x) * q"
    by blast
  show "coef x < 0 \<Longrightarrow> coef (Big_round dp x) \<le> 0"
    using q by (simp add: c)
  show "0 \<le> coef x \<Longrightarrow> 0 \<le> coef (Big_round dp x)"
    using q by (simp add: c sgn_if)
qed

lemma Big_toFixed_parse:
  assumes "0 < dp"
  shows "Big_parse (Big_toFixed dp x)
           = Some (Big (coef (Big_round dp x) * 10 ^ (dp - scale (Big_round dp x))) dp)"
    and "fixed_format dp (Big_toFixed dp x)"
proof -
  let ?r = "Big_round dp x"
  let ?m = "nat \<bar>coef ?r\<bar> * 10 ^ (dp - scale ?r)"
  let ?ip = "digits (?m div 10 ^ dp)"
  let ?fp = "pad_zeros dp (digits (?m mod 10 ^ dp))"
  have shape: "Big_toFixed dp x = (if coef x < 0 then ''-'' else []) @ ?ip @ CHR ''.'' # ?fp"
    using assms by (simp add: Big_toFixed_def Let_def)
  have fp: "list_all is_digit ?fp"
    by (rule pad_zeros_all [OF digits_all])
  have "length (digits (?m mod 10 ^ dp)) \<le> dp"
    by (rule length_digits [OF assms]) simp
  then have len: "length ?fp = dp"
    by (rule length_pad_zeros)
  have "nat_of_digits (?ip @ ?fp) = (?m div 10 ^ dp) * 10 ^ dp + ?m mod 10 ^ dp"
    by (simp only: nat_of_digits_append nat_of_digits_pad nat_of_digits_digits len)
  then have val: "nat_of_digits (?ip @ ?fp) = ?m"
    by (simp only: div_mult_mod_eq)
  have signed: "(if coef x < 0 then - int ?m else int ?m) = coef ?r * 10 ^ (dp - scale ?r)"
  proof (cases "coef x < 0")
    case True
    from Big_round_sign(1) [OF this, of dp] have "\<bar>coef ?r\<bar> = - coef ?r"
      by simp
    with True show ?thesis by simp
  next
    case False
    then have "0 \<le> coef x" by simp
    from Big_round_sign(2) [OF this, of dp] have "\<bar>coef ?r\<bar> = coef ?r"
      by simp
    with False show ?thesis by simp
  qed
  from Big_parse_fixed [where ip = ?ip and fp = ?fp and neg = "coef x < 0",
      OF digits_nonempty digits_all fp]
  show "Big_parse (Big_toFixed dp x) = Some (Big (coef ?r * 10 ^ (dp - scale ?r)) dp)"
    by (simp only: shape val len signed)
  from fixed_format_fixed [where ip = ?ip and fp = ?fp and neg = "coef x < 0",
      OF digits_nonempty digits_all fp]
  show "fixed_format dp (Big_toFixed dp x)"
    by (simp only: shape len)
qed

lemma Big_toFixed_value:
  assumes "0 < dp"
  shows "decimal (Big_toFixed dp x)"
    and "decimal_value (Big_toFixed dp x) = half_up dp (Big_val x)"
proof -
  let ?r = "Big_round dp x"
  note parse = Big_toFixed_parse(1) [OF assms, of x]
  show "decimal (Big_toFixed dp x)"
    by (simp add: decimal_def parse)
  have "(10::rat) ^ dp = 10 ^ (dp - scale ?r) * 10 ^ scale ?r"
    using Big_round_scale [of dp x] by (simp flip: power_add)
  then have "Big_val (Big (coef ?r * 10 ^ (dp - scale ?r)) dp) = Big_val ?r"
    by (simp add: Big_val_def)
  then show "decimal_value (Big_toFixed dp x) = half_up dp (Big_val x)"
    by (simp add: decimal_value_def parse Big_val_round)
qed

section \<open>The fill events of the streaming watcher\<close>

lemma onPoll_fills:
  assumes "keeps_polling (Inr order)" and "decimal start"
  shows "list_all2 fill_event_of (fst (onPoll orderId start (Inr order)))
           (filter rises [(start, order)])"
proof -
  from assms(1) have nt: "\<not> terminal (status order)" and d: "decimal (newFillAmount_of order)"
    by (simp_all add: keeps_polling_def)
  from d obtain n where n: "Big_parse (newFillAmount_of order) = Some n"
    by (auto simp add: decimal_def)
  from assms(2) obtain f where f: "Big_parse start = Some f"
    by (auto simp add: decimal_def)
  from nt have nf: "status order \<noteq> ''FAILED''"
    by (auto simp add: terminal_def)
  have r: "rises (start, order) \<longleftrightarrow> Big_val f < Big_val n"
    by (simp add: rises_def decimal_value_def n f)
  have e: "fill_event_of (Fill (Big_toFixed 8 (Big_minus n f)) (limitPrice order)) (start, order)"
    by (simp add: fill_event_of_def Big_toFixed_parse(2) Big_toFixed_value Big_val_minus
        decimal_value_def [of start] decimal_value_def [of "newFillAmount_of order"] n f)
  show ?thesis
    using nt nf e by (simp add: onPoll_order [OF n f] r)
qed

lemma watch_fills:
  assumes "list_all keeps_polling (map Inr orders)" and "decimal start"
  shows "list_all2 fill_event_of (fst (watchOrderFillAmounts orderId start (map Inr orders)))
           (filter rises (zip (start # map newFillAmount_of orders) orders))"
  using assms
proof (induction orders arbitrary: start)
  case Nil
  then show ?case by simp
next
  case (Cons order orders)
  from Cons.prems have k: "keeps_polling (Inr order)"
    and ks: "list_all keeps_polling (map Inr orders)"
    by simp_all
  have nxt: "snd (onPoll orderId start (Inr order)) = Reschedule (newFillAmount_of order)"
    using onPoll_keeps_polling(1) [OF k Cons.prems(2), of orderId] by simp
  have dec: "decimal (newFillAmount_of order)"
    using onPoll_keeps_polling(3) [OF k Cons.prems(2)] by simp
  have run: "fst (watchOrderFillAmounts orderId start (map Inr (order # orders)))
      = fst (onPoll orderId start (Inr order)) @
        fst (watchOrderFillAmounts orderId (newFillAmount_of order) (map Inr orders))"
    by (simp add: nxt case_prod_beta)
  have polls: "filter rises (zip (start # map newFillAmount_of (order # orders)) (order # orders))
      = filter rises [(start, order)] @
        filter rises (zip (newFillAmount_of order # map newFillAmount_of orders) orders)"
    by simp
  show ?case
    unfolding run polls
    by (rule list_all2_appendI [OF onPoll_fills [OF k Cons.prems(2)] Cons.IH [OF ks dec]])
qed


lemma fill_event_is_Fill: "fill_event_of ev p \<Longrightarrow> is_Fill ev"
  by (cases ev) (simp_all add: fill_event_of_def is_Fill_def)

lemma filter_fill_events:
  "list_all2 fill_event_of fills ps \<Longrightarrow> filter is_Fill fills = fills"
  by (induction fills ps rule: list_all2_induct) (simp_all add: fill_event_is_Fill)

lemma filter_end_events: "filter is_Fill (end_events orderId order) = []"
  by (simp add: end_events_def is_Fill_def)

lemma last_poll_fills:
  assumes "decimal (newFillAmount_of order)" and "decimal start"
  shows "\<exists>fills. fst (watchOrderFillAmounts orderId start [Inr order])
                    = fills @ end_events orderId order
           \<and> list_all2 fill_event_of fills (filter rises [(start, order)])"
proof -
  from assms(1) obtain n where n: "Big_parse (newFillAmount_of order) = Some n"
    by (auto simp add: decimal_def)
  from assms(2) obtain f where f: "Big_parse start = Some f"
    by (auto simp add: decimal_def)
  let ?fills = "if Big_val f < Big_val n
                then [Fill (Big_toFixed 8 (Big_minus n f)) (limitPrice order)] else []"
  have r: "rises (start, order) \<longleftrightarrow> Big_val f < Big_val n"
    by (simp add: rises_def decimal_value_def n f)
  have e: "fill_event_of (Fill (Big_toFixed 8 (Big_minus n f)) (limitPrice order)) (start, order)"
    by (simp add: fill_event_of_def Big_toFixed_parse(2) Big_toFixed_value Big_val_minus
        decimal_value_def [of start] decimal_value_def [of "newFillAmount_of order"] n f)
  have poll: "fst (onPoll orderId start (Inr order)) = ?fills @ end_events orderId order"
    by (simp add: onPoll_order [OF n f] end_events_def)
  have "fst (watchOrderFillAmounts orderId start [Inr order]) = fst (onPoll orderId start (Inr order))"
    by (simp add: case_prod_beta split: next_poll.split)
  with poll have "fst (watchOrderFillAmounts orderId start [Inr order])
      = ?fills @ end_events orderId order"
    by simp
  moreover have "list_all2 fill_event_of ?fills (filter rises [(start, order)])"
    using e by (simp add: r)
  ultimately show ?thesis
    by blast
qed

lemma watch_fills_to_last:
  assumes "list_all keeps_polling (map Inr pre)" and "decimal (newFillAmount_of lastOrder)"
    and "decimal start"
  shows "\<exists>fills. fst (watchOrderFillAmounts orderId start (map Inr (pre @ [lastOrder])))
                    = fills @ end_events orderId lastOrder
           \<and> list_all2 fill_event_of fills
               (filter rises (zip (start # map newFillAmount_of (pre @ [lastOrder]))
                                  (pre @ [lastOrder])))"
  using assms
proof (induction pre arbitrary: start)
  case Nil
  from last_poll_fills [OF Nil.prems(2,3), of orderId] show ?case
    by simp
next
  case (Cons order pre)
  from Cons.prems have k: "keeps_polling (Inr order)"
    and ks: "list_all keeps_polling (map Inr pre)"
    by simp_all
  have nxt: "snd (onPoll orderId start (Inr order)) = Reschedule (newFillAmount_of order)"
    using onPoll_keeps_polling(1) [OF k Cons.prems(3), of orderId] by simp
  have dec: "decimal (newFillAmount_of order)"
    using onPoll_keeps_polling(3) [OF k Cons.prems(3)] by simp
  from Cons.IH [OF ks Cons.prems(2) dec]
  obtain fills where run': "fst (watchOrderFillAmounts orderId (newFillAmount_of order)
                                   (map Inr (pre @ [lastOrder])))
                              = fills @ end_events orderId lastOrder"
    and fills: "list_all2 fill_event_of fills
               (filter rises (zip (newFillAmount_of order # map newFillAmount_of (pre @ [lastOrder]))
                                  (pre @ [lastOrder])))"
    by blast
  have run: "fst (watchOrderFillAmounts orderId start (map Inr ((order # pre) @ [lastOrder])))
      = (fst (onPoll orderId start (Inr order)) @ fills) @ end_events orderId lastOrder"
    using run' by (simp add: nxt case_prod_beta)
  have polls: "filter rises (zip (start # map newFillAmount_of ((order # pre) @ [lastOrder]))
                                 ((order # pre) @ [lastOrder]))
      = filter rises [(start, order)] @
        filter rises (zip (newFillAmount_of order # map newFillAmount_of (pre @ [lastOrder]))
                          (pre @ [lastOrder]))"
    by simp
  have "list_all2 fill_event_of (fst (onPoll orderId start (Inr order)) @ fills)
          (filter rises (zip (start # map newFillAmount_of ((order # pre) @ [lastOrder]))
                             ((order # pre) @ [lastOrder])))"
    unfolding polls
    by (rule list_all2_appendI [OF onPoll_fills [OF k Cons.prems(3)] fills])
  with run show ?case
    by blast
qed

lemma replicate_numeral_eval: "replicate (numeral k) x = x # replicate (pred_numeral k) x"
  by (simp add: numeral_eq_Suc)

lemma parse_samples:
  "Big_parse ''0'' = Some (Big 0 0)"
  "Big_parse ''0.3'' = Some (Big 3 1)"
  "Big_parse ''0.7'' = Some (Big 7 1)"
  by (simp_all add: Big_eval)

lemma poll_0_3_3_7:
  "fst (watchOrderFillAmounts orderId ''0''
     [Inr \<lparr>blockOrderId = b, status = ''ACTIVE'', fillAmount = Some ''0'', limitPrice = price\<rparr>,
      Inr \<lparr>blockOrderId = b, status = ''ACTIVE'', fillAmount = Some ''0.3'', limitPrice = price\<rparr>,
      Inr \<lparr>blockOrderId = b, status = ''ACTIVE'', fillAmount = Some ''0.3'', limitPrice = price\<rparr>,
      Inr \<lparr>blockOrderId = b, status = ''ACTIVE'', fillAmount = Some ''0.7'', limitPrice = price\<rparr>])
   = [Fill ''0.30000000'' price, Fill ''0.40000000'' price]"
proof -
  let ?o = "\<lambda>a. \<lparr>blockOrderId = b, status = ''ACTIVE'', fillAmount = Some a, limitPrice = price\<rparr>"
  have new: "newFillAmount_of (?o ''0'') = ''0''" "newFillAmount_of (?o ''0.3'') = ''0.3''"
    "newFillAmount_of (?o ''0.7'') = ''0.7''"
    by (simp_all add: newFillAmount_of_def)
  have amounts: "Big_toFixed 8 (Big_minus (Big 3 1) (Big 0 0)) = ''0.30000000''"
    "Big_toFixed 8 (Big_minus (Big 7 1) (Big 3 1)) = ''0.40000000''"
    by (simp_all add: Big_eval)
  have a1: "onPoll orderId ''0'' (Inr (?o ''0'')) = ([], Reschedule ''0'')"
    using onPoll_order [of "?o ''0''" "Big 0 0" "''0''" "Big 0 0" orderId]
    by (simp add: new parse_samples terminal_def)
  have a2: "onPoll orderId ''0'' (Inr (?o ''0.3'')) = ([Fill ''0.30000000'' price], Reschedule ''0.3'')"
    using onPoll_order [of "?o ''0.3''" "Big 3 1" "''0''" "Big 0 0" orderId]
    by (simp add: new parse_samples terminal_def amounts Big_val_def del: One_nat_def)
  have a3: "onPoll orderId ''0.3'' (Inr (?o ''0.3'')) = ([], Reschedule ''0.3'')"
    using onPoll_order [of "?o ''0.3''" "Big 3 1" "''0.3''" "Big 3 1" orderId]
    by (simp add: new parse_samples terminal_def)
  have a4: "onPoll orderId ''0.3'' (Inr (?o ''0.7'')) = ([Fill ''0.40000000'' price], Reschedule ''0.7'')"
    using onPoll_order [of "?o ''0.7''" "Big 7 1" "''0.3''" "Big 3 1" orderId]
    by (simp add: new parse_samples terminal_def amounts Big_val_def del: One_nat_def)
  show ?thesis
    by (simp add: a1 a2 a3 a4)
qed

text \<open>
  C3, as the code has it. Take any polls that keep the watch going, followed by one more
  poll of any status, terminal or not, all with decimal fill amounts. The events emitted
  are fill events followed by the notification of the end, if the last poll ends the
  watch, and the fill events correspond one to one, in order, to the polls whose fill
  amount is strictly greater than the last-known one (the amount of the poll before, \<open>0\<close>
  for the first): a poll that does not raise the amount emits no fill event, the last
  poll included. The event of a poll that raises it carries the limit price of the
  polled order, and its amount is the delta rounded half up to 8 decimal places, printed
  with exactly 8 decimals. While no poll ends the watch, fill events are all there is.
  For the polls \<open>0\<close>, \<open>0.3\<close>, \<open>0.3\<close>, \<open>0.7\<close> the events are the two fills \<open>0.30000000\<close>
  and \<open>0.40000000\<close>.
\<close>

theorem fill_events_on_increase:
  "(list_all keeps_polling (map Inr pre) \<and> decimal (newFillAmount_of lastOrder) \<longrightarrow>
      (\<exists>fills. fst (watchOrderFillAmounts orderId ''0'' (map Inr (pre @ [lastOrder])))
                  = fills @ end_events orderId lastOrder
         \<and> list_all2 fill_event_of fills
             (filter rises (zip (''0'' # map newFillAmount_of (pre @ [lastOrder]))
                                (pre @ [lastOrder]))))
    \<and> list_all2 fill_event_of
        (filter is_Fill (fst (watchOrderFillAmounts orderId ''0'' (map Inr (pre @ [lastOrder])))))
        (filter rises (zip (''0'' # map newFillAmount_of (pre @ [lastOrder]))
                           (pre @ [lastOrder]))))
   \<and> (list_all keeps_polling (map Inr orders) \<longrightarrow>
      list_all2 fill_event_of (fst (watchOrderFillAmounts orderId ''0'' (map Inr orders)))
        (filter rises (zip (''0'' # map newFillAmount_of orders) orders)))
   \<and> fst (watchOrderFillAmounts orderId ''0''
       [Inr \<lparr>blockOrderId = b, status = ''ACTIVE'', fillAmount = Some ''0'', limitPrice = price\<rparr>,
        Inr \<lparr>blockOrderId = b, status = ''ACTIVE'', fillAmount = Some ''0.3'', limitPrice = price\<rparr>,
        Inr \<lparr>blockOrderId = b, status = ''ACTIVE'', fillAmount = Some ''0.3'', limitPrice = price\<rparr>,
        Inr \<lparr>blockOrderId = b, status = ''ACTIVE'', fillAmount = Some ''0.7'', limitPrice = price\<rparr>])
     = [Fill ''0.30000000'' price, Fill ''0.40000000'' price]"
proof (intro conjI impI)
  have zero: "decimal ''0''"
    by (simp add: decimal_def parse_samples)
  {
    assume h: "list_all keeps_polling (map Inr pre) \<and> decimal (newFillAmount_of lastOrder)"
    then have p: "list_all keeps_polling (map Inr pre)" and d: "decimal (newFillAmount_of lastOrder)"
      by simp_all
    from watch_fills_to_last [OF p d zero, of orderId]
    obtain fills where run: "fst (watchOrderFillAmounts orderId ''0'' (map Inr (pre @ [lastOrder])))
                  = fills @ end_events orderId lastOrder"
      and fills: "list_all2 fill_event_of fills
             (filter rises (zip (''0'' # map newFillAmount_of (pre @ [lastOrder]))
                                (pre @ [lastOrder])))"
      by blast
    from run fills
    show "\<exists>fills. fst (watchOrderFillAmounts orderId ''0'' (map Inr (pre @ [lastOrder])))
                  = fills @ end_events orderId lastOrder
         \<and> list_all2 fill_event_of fills
             (filter rises (zip (''0'' # map newFillAmount_of (pre @ [lastOrder]))
                                (pre @ [lastOrder])))"
      by blast
    have "filter is_Fill (fst (watchOrderFillAmounts orderId ''0'' (map Inr (pre @ [lastOrder]))))
        = fills"
      by (simp only: run filter_append filter_fill_events [OF fills] filter_end_events
          append_Nil2)
    with fills
    show "list_all2 fill_event_of
        (filter is_Fill (fst (watchOrderFillAmounts orderId ''0'' (map Inr (pre @ [lastOrder])))))
        (filter rises (zip (''0'' # map newFillAmount_of (pre @ [lastOrder]))
                           (pre @ [lastOrder])))"
      by simp
  }
  {
    assume "list_all keeps_polling (map Inr orders)"
    from watch_fills [OF this zero]
    show "list_all2 fill_event_of (fst (watchOrderFillAmounts orderId ''0'' (map Inr orders)))
        (filter rises (zip (''0'' # map newFillAmount_of orders) orders))" .
  }
  show "fst (watchOrderFillAmounts orderId ''0''
       [Inr \<lparr>blockOrderId = b, status = ''ACTIVE'', fillAmount = Some ''0'', limitPrice = price\<rparr>,
        Inr \<lparr>blockOrderId = b, status = ''ACTIVE'', fillAmount = Some ''0.3'', limitPrice = price\<rparr>,
        Inr \<lparr>blockOrderId = b, status = ''ACTIVE'', fillAmount = Some ''0.3'', limitPrice = price\<rparr>,
        Inr \<lparr>blockOrderId = b, status = ''ACTIVE'', fillAmount = Some ''0.7'', limitPrice = price\<rparr>])
     = [Fill ''0.30000000'' price, Fill ''0.40000000'' price]"
    by (rule poll_0_3_3_7)
qed

theorem fill_events_on_increase_witness:
  "list_all keeps_polling (map Inr [sample_order ''ACTIVE'' (Some ''0.5'')])
   \<and> decimal (newFillAmount_of (sample_order ''COMPLETE'' (Some ''0.5'')))
   \<and> filter rises (zip (''0'' # map newFillAmount_of
                        [sample_order ''ACTIVE'' (Some ''0.5''), sample_order ''COMPLETE'' (Some ''0.5'')])
                     [sample_order ''ACTIVE'' (Some ''0.5''), sample_order ''COMPLETE'' (Some ''0.5'')])
     = [(''0'', sample_order ''ACTIVE'' (Some ''0.5''))]
   \<and> fst (watchOrderFillAmounts ''order-1'' ''0''
          (map Inr [sample_order ''ACTIVE'' (Some ''0.5''), sample_order ''COMPLETE'' (Some ''0.5'')]))
     = [Fill ''0.50000000'' ''9000'', Done ''COMPLETE'']
   \<and> list_all2 fill_event_of [Fill ''0.50000000'' ''9000'']
       [(''0'', sample_order ''ACTIVE'' (Some ''0.5''))]
   \<and> list_all keeps_polling
     (map Inr [sample_order ''ACTIVE'' (Some ''0.3''), sample_order ''ACTIVE'' (Some ''0.3''),
               sample_order ''ACTIVE'' (Some ''0.7'')])
   \<and> filter rises (zip (''0'' # map newFillAmount_of
                        [sample_order ''ACTIVE'' (Some ''0.3''), sample_order ''ACTIVE'' (Some ''0.3''),
                         sample_order ''ACTIVE'' (Some ''0.7'')])
                     [sample_order ''ACTIVE'' (Some ''0.3''), sample_order ''ACTIVE'' (Some ''0.3''),
                      sample_order ''ACTIVE'' (Some ''0.7'')])
     = [(''0'', sample_order ''ACTIVE'' (Some ''0.3'')), (''0.3'', sample_order ''ACTIVE'' (Some ''0.7''))]
   \<and> list_all2 fill_event_of
       (fst (watchOrderFillAmounts ''order-1'' ''0''
          (map Inr [sample_order ''ACTIVE'' (Some ''0.3''), sample_order ''ACTIVE'' (Some ''0.3''),
                    sample_order ''ACTIVE'' (Some ''0.7'')])))
       [(''0'', sample_order ''ACTIVE'' (Some ''0.3'')), (''0.3'', sample_order ''ACTIVE'' (Some ''0.7''))]"
proof -
  let ?a = "sample_order ''ACTIVE'' (Some ''0.5'')"
  let ?c = "sample_order ''COMPLETE'' (Some ''0.5'')"
  let ?orders = "[sample_order ''ACTIVE'' (Some ''0.3''), sample_order ''ACTIVE'' (Some ''0.3''),
                  sample_order ''ACTIVE'' (Some ''0.7'')]"
  have half: "Big_parse ''0.5'' = Some (Big 5 1)"
    by (simp add: Big_eval)
  have new: "newFillAmount_of (sample_order st (Some ''0.3'')) = ''0.3''"
    "newFillAmount_of (sample_order st (Some ''0.5'')) = ''0.5''"
    "newFillAmount_of (sample_order st (Some ''0.7'')) = ''0.7''" for st
    by (simp_all add: newFillAmount_of_def sample_order_def)
  have fields: "status (sample_order st amount) = st" "limitPrice (sample_order st amount) = ''9000''"
    for st amount
    by (simp_all add: sample_order_def)
  have vals: "decimal_value ''0'' = 0" "decimal_value ''0.3'' = 3 / 10"
    "decimal_value ''0.5'' = 5 / 10" "decimal_value ''0.7'' = 7 / 10"
    by (simp_all add: decimal_value_def parse_samples half Big_val_def)
  have k1: "list_all keeps_polling (map Inr [?a])"
    by (simp add: keeps_polling_def terminal_def decimal_def new fields half)
  have d1: "decimal (newFillAmount_of ?c)"
    by (simp add: decimal_def new half)
  have r1: "filter rises (zip (''0'' # map newFillAmount_of [?a, ?c]) [?a, ?c]) = [(''0'', ?a)]"
    by (simp add: rises_def new vals)
  have amount: "Big_toFixed 8 (Big_minus (Big 5 1) (Big 0 0)) = ''0.50000000''"
    by (simp add: Big_eval)
  have p1: "onPoll ''order-1'' ''0'' (Inr ?a) = ([Fill ''0.50000000'' ''9000''], Reschedule ''0.5'')"
    using onPoll_order [of ?a "Big 5 1" "''0''" "Big 0 0" "''order-1''"]
    by (simp add: new fields parse_samples half terminal_def amount Big_val_def del: One_nat_def)
  have p2: "onPoll ''order-1'' ''0.5'' (Inr ?c) = ([Done ''COMPLETE''], Stop)"
    using onPoll_order [of ?c "Big 5 1" "''0.5''" "Big 5 1" "''order-1''"]
    by (simp add: new fields half terminal_def)
  have ev: "fst (watchOrderFillAmounts ''order-1'' ''0'' (map Inr [?a, ?c]))
      = [Fill ''0.50000000'' ''9000'', Done ''COMPLETE'']"
    by (simp add: p1 p2)
  from fill_events_on_increase
      [where pre = "[?a]" and lastOrder = ?c and orderId = "''order-1''",
       THEN conjunct1, THEN mp, OF conjI [OF k1 d1], THEN conjunct2]
  have "list_all2 fill_event_of
        (filter is_Fill (fst (watchOrderFillAmounts ''order-1'' ''0'' (map Inr [?a, ?c]))))
        (filter rises (zip (''0'' # map newFillAmount_of [?a, ?c]) [?a, ?c]))"
    by (simp only: append_Cons append_Nil)
  then have f1: "list_all2 fill_event_of [Fill ''0.50000000'' ''9000''] [(''0'', ?a)]"
    by (simp only: ev r1) (simp add: is_Fill_def)
  have k: "list_all keeps_polling (map Inr ?orders)"
    by (simp add: keeps_polling_def terminal_def decimal_def new fields parse_samples)
  have r: "filter rises (zip (''0'' # map newFillAmount_of ?orders) ?orders)
     = [(''0'', sample_order ''ACTIVE'' (Some ''0.3'')), (''0.3'', sample_order ''ACTIVE'' (Some ''0.7''))]"
    by (simp add: rises_def new vals)
  from fill_events_on_increase
      [where orders = ?orders and orderId = "''order-1''",
       THEN conjunct2, THEN conjunct1, THEN mp, OF k]
  have f: "list_all2 fill_event_of (fst (watchOrderFillAmounts ''order-1'' ''0'' (map Inr ?orders)))
       [(''0'', sample_order ''ACTIVE'' (Some ''0.3'')), (''0.3'', sample_order ''ACTIVE'' (Some ''0.7''))]"
    by (simp only: r)
  from k1 d1 r1 ev f1 k r f show ?thesis
    by - (intro conjI; (elim conjE)?; assumption)
qed

text \<open>
  C3 as stated does not hold: a fill amount with more than 8 decimals gives a fill event
  whose amount is not the delta. From \<open>0\<close> to \<open>0.000000004\<close> the event says
  \<open>0.00000000\<close>.
\<close>

theorem fill_amount_counterexample:
  "fst (watchOrderFillAmounts ''order-1'' ''0'' [Inr (sample_order ''ACTIVE'' (Some ''0.000000004''))])
     = [Fill ''0.00000000'' ''9000'']
   \<and> decimal_value ''0.00000000'' \<noteq> decimal_value ''0.000000004'' - decimal_value ''0''"
proof -
  have p: "Big_parse ''0.000000004'' = Some (Big 4 9)" "Big_parse ''0'' = Some (Big 0 0)"
    "Big_parse ''0.00000000'' = Some (Big 0 8)"
    by (simp_all add: Big_eval)
  have new: "newFillAmount_of (sample_order ''ACTIVE'' (Some ''0.000000004'')) = ''0.000000004''"
    by (simp add: newFillAmount_of_def sample_order_def)
  have amount: "Big_toFixed 8 (Big_minus (Big 4 9) (Big 0 0)) = ''0.00000000''"
    by (simp add: Big_eval replicate_numeral_eval)
  have "onPoll ''order-1'' ''0'' (Inr (sample_order ''ACTIVE'' (Some ''0.000000004'')))
      = ([Fill ''0.00000000'' ''9000''], Reschedule ''0.000000004'')"
    using onPoll_order [of "sample_order ''ACTIVE'' (Some ''0.000000004'')" "Big 4 9" "''0''" "Big 0 0"
        "''order-1''"]
    by (simp add: new p amount Big_val_def del: One_nat_def) (simp add: sample_order_def terminal_def)
  then have "fst (watchOrderFillAmounts ''order-1'' ''0''
                    [Inr (sample_order ''ACTIVE'' (Some ''0.000000004''))])
      = [Fill ''0.00000000'' ''9000'']"
    by simp
  moreover have "decimal_value ''0.00000000'' \<noteq> decimal_value ''0.000000004'' - decimal_value ''0''"
    by (simp add: decimal_value_def p Big_val_def)
  ultimately show ?thesis
    by blast
qed


section \<open>maxOrderSize: the size returned\<close>

lemma buffered_size_value:
  "fixed_format 8 (buffered_size (r, s))"
  "decimal (buffered_size (r, s))"
  "decimal_value (buffered_size (r, s)) = half_up 8 (min (Big_val s) (Big_val r) * (95 / 100))"
proof -
  let ?s = "Big_times s buffer_factor" and ?r = "Big_times r buffer_factor"
  have f: "Big_val buffer_factor = 95 / 100"
    by (simp add: buffer_factor_def Big_val_def)
  have size: "buffered_size (r, s) = Big_toFixed 8 (if Big_val ?s < Big_val ?r then ?s else ?r)"
    by (simp add: buffered_size_def Let_def Big_gt_iff)
  have "Big_val (if Big_val ?s < Big_val ?r then ?s else ?r) = min (Big_val ?s) (Big_val ?r)"
    by (simp add: min_def)
  also have "\<dots> = min (Big_val s) (Big_val r) * (95 / 100)"
    by (simp add: Big_val_times f min_def)
  finally have v: "Big_val (if Big_val ?s < Big_val ?r then ?s else ?r)
      = min (Big_val s) (Big_val r) * (95 / 100)" .
  show "fixed_format 8 (buffered_size (r, s))"
    unfolding size by (rule Big_toFixed_parse(2)) simp
  show "decimal (buffered_size (r, s))"
    unfolding size by (rule Big_toFixed_value(1)) simp
  show "decimal_value (buffered_size (r, s)) = half_up 8 (min (Big_val s) (Big_val r) * (95 / 100))"
    unfolding size by (simp only: Big_toFixed_value(2) [of 8, simplified] v)
qed

lemma Big_div_defined:
  assumes "Big_val p \<noteq> 0"
  shows "\<exists>q. Big_div x p = Inr q \<and> Big_val q = half_up 20 (Big_val x / Big_val p)"
proof -
  from assms have "coef p \<noteq> 0"
    by (auto simp add: Big_val_def)
  then obtain q where q: "Big_div x p = Inr q"
    by (simp add: Big_div_def Let_def)
  with Big_val_div [OF q] show ?thesis
    by blast
qed

lemma side_capacities_value:
  assumes "decimal_quote caps" and "decimal price" and "decimal_value price \<noteq> 0"
  shows "\<exists>r s. side_capacities side price caps = Inr (r, s)
           \<and> (Big_val r, Big_val s) = rounded_capacities side price caps"
proof -
  from assms(1) obtain bs br cs cr
    where bs: "Big_parse (availableSendCapacity (baseSymbolCapacities caps)) = Some bs"
      and br: "Big_parse (availableReceiveCapacity (baseSymbolCapacities caps)) = Some br"
      and cs: "Big_parse (availableSendCapacity (counterSymbolCapacities caps)) = Some cs"
      and cr: "Big_parse (availableReceiveCapacity (counterSymbolCapacities caps)) = Some cr"
    by (auto simp add: decimal_quote_def decimal_def)
  from assms(2) obtain p where p: "Big_parse price = Some p"
    by (auto simp add: decimal_def)
  from assms(3) have pv: "Big_val p \<noteq> 0"
    by (simp add: decimal_value_def p)
  show ?thesis
  proof (cases "side = ''BID''")
    case True
    from Big_div_defined [OF pv, of cs] obtain q where q: "Big_div cs p = Inr q"
      and qv: "Big_val q = half_up 20 (Big_val cs / Big_val p)"
      by blast
    have "side_capacities side price caps = Inr (br, q)"
      by (simp add: side_capacities_def True Big_of_def br cs p q)
    moreover have "(Big_val br, Big_val q) = rounded_capacities side price caps"
      by (simp add: rounded_capacities_def True decimal_value_def br cs p qv)
    ultimately show ?thesis
      by blast
  next
    case False
    from Big_div_defined [OF pv, of cr] obtain q where q: "Big_div cr p = Inr q"
      and qv: "Big_val q = half_up 20 (Big_val cr / Big_val p)"
      by blast
    have "side_capacities side price caps = Inr (q, bs)"
      by (simp add: side_capacities_def False Big_of_def bs cr p q)
    moreover have "(Big_val q, Big_val bs) = rounded_capacities side price caps"
      by (simp add: rounded_capacities_def False decimal_value_def bs cr p qv)
    ultimately show ?thesis
      by blast
  qed
qed

text \<open>
  C1, as the code has it. For a side \<open>BID\<close> or \<open>ASK\<close>, a positive decimal price and a
  quote of decimal capacities, \<open>maxOrderSize\<close> makes the one capacity request and returns
  a string in fixed notation with exactly 8 decimals whose value is the smaller of the
  two capacities times 0.95, rounded half up to 8 places (big.js's rounding mode, not
  truncation). The capacities are those of the specification with the quotient by the
  price rounded half up to 20 places: for \<open>BID\<close> the base receive capacity and the
  counter send capacity over the price, for \<open>ASK\<close> the counter receive capacity over the
  price and the base send capacity.
\<close>

theorem maxOrderSize_rounds_half_up:
  assumes "side = ''BID'' \<or> side = ''ASK''"
    and "getTradingCapacities market = Inr caps"
    and "decimal_quote caps" and "decimal price" and "0 < decimal_value price"
  shows "snd (maxOrderSize getTradingCapacities market side price sent)
           = sent @ [GetTradingCapacities market]
       \<and> (\<exists>size. fst (maxOrderSize getTradingCapacities market side price sent) = Inr size
             \<and> fixed_format 8 size \<and> decimal size
             \<and> decimal_value size
                 = half_up 8 (min (snd (rounded_capacities side price caps))
                                  (fst (rounded_capacities side price caps)) * (95 / 100)))"
proof -
  from assms(5) have "decimal_value price \<noteq> 0"
    by simp
  from side_capacities_value [OF assms(3,4) this, of side]
  obtain r s where rs: "side_capacities side price caps = Inr (r, s)"
    and v: "(Big_val r, Big_val s) = rounded_capacities side price caps"
    by blast
  from v have v': "fst (rounded_capacities side price caps) = Big_val r"
    "snd (rounded_capacities side price caps) = Big_val s"
    by (simp_all flip: v)
  have run: "maxOrderSize getTradingCapacities market side price sent
      = (Inr (buffered_size (r, s)), sent @ [GetTradingCapacities market])"
    using assms(1) by (auto simp add: maxOrderSize_def assms(2) rs)
  show ?thesis
    unfolding run v' using buffered_size_value [of r s] by simp
qed


lemma sample_quote_parse:
  "Big_parse ''0.5'' = Some (Big 5 1)"
  "Big_parse ''1.00000001'' = Some (Big 100000001 8)"
  "Big_parse ''100'' = Some (Big 100 0)"
  "Big_parse ''2'' = Some (Big 2 0)"
  "Big_parse ''3'' = Some (Big 3 0)"
  "Big_parse ''1'' = Some (Big 1 0)"
  "Big_parse ''0.95000001'' = Some (Big 95000001 8)"
  by (simp_all add: Big_eval)

lemma maxOrderSize_sample:
  "maxOrderSize (\<lambda>market. Inr sample_quote) ''BTC/USD'' ''BID'' ''3'' []
     = (Inr ''0.95000001'', [GetTradingCapacities ''BTC/USD''])"
  by (simp add: maxOrderSize_def sample_quote_def side_capacities_def buffered_size_def
      buffer_factor_def Big_eval replicate_numeral_eval)

theorem maxOrderSize_rounds_half_up_witness:
  "(''BID'' = ''BID'' \<or> ''BID'' = ''ASK'')
   \<and> (\<lambda>market. Inr sample_quote) ''BTC/USD'' = (Inr sample_quote :: error + trading_capacities)
   \<and> decimal_quote sample_quote \<and> decimal ''3'' \<and> 0 < decimal_value ''3''
   \<and> maxOrderSize (\<lambda>market. Inr sample_quote) ''BTC/USD'' ''BID'' ''3'' []
       = (Inr ''0.95000001'', [GetTradingCapacities ''BTC/USD''])
   \<and> fixed_format 8 ''0.95000001''
   \<and> decimal_value ''0.95000001''
       = half_up 8 (min (snd (rounded_capacities ''BID'' ''3'' sample_quote))
                        (fst (rounded_capacities ''BID'' ''3'' sample_quote)) * (95 / 100))"
proof -
  have side: "''BID'' = ''BID'' \<or> ''BID'' = ''ASK''"
    by simp
  have quote: "(\<lambda>market. Inr sample_quote) ''BTC/USD'' = (Inr sample_quote :: error + trading_capacities)"
    by simp
  have dq: "decimal_quote sample_quote"
    by (simp add: decimal_quote_def sample_quote_def decimal_def sample_quote_parse)
  have dp: "decimal ''3''"
    by (simp add: decimal_def sample_quote_parse)
  have pos: "0 < decimal_value ''3''"
    by (simp add: decimal_value_def sample_quote_parse Big_val_def)
  from maxOrderSize_rounds_half_up
      [where getTradingCapacities = "\<lambda>market. Inr sample_quote" and market = "''BTC/USD''"
         and side = "''BID''" and price = "''3''" and caps = sample_quote and sent = "[]",
       OF side quote dq dp pos]
  obtain size where size: "fst (maxOrderSize (\<lambda>market. Inr sample_quote) ''BTC/USD'' ''BID'' ''3'' [])
        = Inr size"
    and format: "fixed_format 8 size"
    and val: "decimal_value size
       = half_up 8 (min (snd (rounded_capacities ''BID'' ''3'' sample_quote))
                        (fst (rounded_capacities ''BID'' ''3'' sample_quote)) * (95 / 100))"
    by blast
  from size have "size = ''0.95000001''"
    by (simp only: maxOrderSize_sample fst_conv sum.inject)
  with format val have "fixed_format 8 ''0.95000001''"
    and "decimal_value ''0.95000001''
       = half_up 8 (min (snd (rounded_capacities ''BID'' ''3'' sample_quote))
                        (fst (rounded_capacities ''BID'' ''3'' sample_quote)) * (95 / 100))"
    by simp_all
  with side quote dq dp pos maxOrderSize_sample show ?thesis
    by - (intro conjI; (elim conjE)?; assumption)
qed

text \<open>
  C1 as stated does not hold. The size is rounded, not truncated: for a bid at price
  \<open>1\<close> with base receive capacity \<open>1.00000001\<close> and counter send capacity \<open>100\<close> the
  smaller capacity times 0.95 is 0.9500000095, which truncates to 0.95000000, and the
  code returns \<open>0.95000001\<close>. And the quotient by the price is rounded before the
  buffer is applied: for a bid at price \<open>1\<close> with counter send capacity
  \<open>0.0000000999999999999996\<close> the exact product is below 0.000000095 and gives
  0.00000009 both truncated and rounded, and the code returns \<open>0.00000010\<close>.
\<close>

theorem maxOrderSize_truncation_counterexample:
  "maxOrderSize (\<lambda>market. Inr sample_quote) ''BTC/USD'' ''BID'' ''1'' []
     = (Inr ''0.95000001'', [GetTradingCapacities ''BTC/USD''])
   \<and> spec_maxOrderSize ''BID'' ''1'' sample_quote = 95 / 100
   \<and> decimal_value ''0.95000001'' \<noteq> spec_maxOrderSize ''BID'' ''1'' sample_quote
   \<and> maxOrderSize (\<lambda>market. Inr tiny_quote) ''BTC/USD'' ''BID'' ''1'' []
     = (Inr ''0.00000010'', [GetTradingCapacities ''BTC/USD''])
   \<and> spec_maxOrderSize ''BID'' ''1'' tiny_quote = 9 / 100000000
   \<and> half_up 8 (min (snd (spec_capacities ''BID'' ''1'' tiny_quote))
                     (fst (spec_capacities ''BID'' ''1'' tiny_quote)) * (95 / 100))
       = 9 / 100000000
   \<and> decimal_value ''0.00000010'' \<noteq> spec_maxOrderSize ''BID'' ''1'' tiny_quote"
proof -
  have run: "maxOrderSize (\<lambda>market. Inr sample_quote) ''BTC/USD'' ''BID'' ''1'' []
     = (Inr ''0.95000001'', [GetTradingCapacities ''BTC/USD''])"
    by (simp add: maxOrderSize_def sample_quote_def side_capacities_def buffered_size_def
        buffer_factor_def Big_eval replicate_numeral_eval)
  have caps: "spec_capacities ''BID'' ''1'' sample_quote = (100000001 / 100000000, 100)"
    by (simp add: spec_capacities_def sample_quote_def decimal_value_def sample_quote_parse
        Big_val_def)
  have "\<lfloor>(1900000019 :: rat) / 20\<rfloor> = 95000000"
    using floor_divide_of_int_eq [of 1900000019 20, where ?'a = rat] by simp
  then have "\<lfloor>(\<bar>100000001 / 100000000 * (95 / 100)\<bar> :: rat) * 10 ^ 8\<rfloor> = 95000000"
    by simp
  then have spec: "spec_maxOrderSize ''BID'' ''1'' sample_quote = 95 / 100"
    by (simp add: spec_maxOrderSize_def caps truncated_def)
  have "decimal_value ''0.95000001'' = 95000001 / 100000000"
    by (simp add: decimal_value_def sample_quote_parse Big_val_def)
  with spec have differ: "decimal_value ''0.95000001'' \<noteq> spec_maxOrderSize ''BID'' ''1'' sample_quote"
    by simp
  have tiny: "Big_parse ''0.0000000999999999999996'' = Some (Big 999999999999996 22)"
    "Big_parse ''0.00000010'' = Some (Big 10 8)"
    by (simp_all add: Big_eval)
  have run2: "maxOrderSize (\<lambda>market. Inr tiny_quote) ''BTC/USD'' ''BID'' ''1'' []
     = (Inr ''0.00000010'', [GetTradingCapacities ''BTC/USD''])"
    by (simp add: maxOrderSize_def tiny_quote_def side_capacities_def buffered_size_def
        buffer_factor_def Big_eval replicate_numeral_eval)
  have caps2: "spec_capacities ''BID'' ''1'' tiny_quote
      = (1, 999999999999996 / 10000000000000000000000)"
    by (simp add: spec_capacities_def tiny_quote_def decimal_value_def sample_quote_parse tiny
        Big_val_def)
  let ?x = "min (999999999999996 / 10000000000000000000000) 1 * (95 / 100) :: rat"
  have x: "\<bar>?x\<bar> * 10 ^ 8 = 9499999999999962 / 1000000000000000" "sgn ?x = 1"
    by simp_all
  have "\<lfloor>(9499999999999962 :: rat) / 1000000000000000\<rfloor> = 9"
    by (rule floor_unique) simp_all
  then have t: "truncated 8 ?x = 9 / 100000000"
    by (simp only: truncated_def x) simp
  have "\<lfloor>(9499999999999962 :: rat) / 1000000000000000 + 1 / 2\<rfloor> = 9"
    by (rule floor_unique) simp_all
  then have h: "half_up 8 ?x = 9 / 100000000"
    by (simp only: half_up_def x) simp
  have spec2: "spec_maxOrderSize ''BID'' ''1'' tiny_quote = 9 / 100000000"
    by (simp only: spec_maxOrderSize_def caps2 fst_conv snd_conv t)
  have half2: "half_up 8 (min (snd (spec_capacities ''BID'' ''1'' tiny_quote))
                     (fst (spec_capacities ''BID'' ''1'' tiny_quote)) * (95 / 100))
       = 9 / 100000000"
    by (simp only: caps2 fst_conv snd_conv h)
  have "decimal_value ''0.00000010'' = 10 / 100000000"
    by (simp add: decimal_value_def tiny Big_val_def)
  with spec2 have differ2: "decimal_value ''0.00000010'' \<noteq> spec_maxOrderSize ''BID'' ''1'' tiny_quote"
    by simp
  from run spec differ run2 spec2 half2 differ2 show ?thesis
    by - (intro conjI; (elim conjE)?; assumption)
qed

end
